theory Spec2Isabelle
  imports Complex_Main "HOL-Library.Word"
begin

section \<open>Data model of the RetroPlayer render manager\<close>

text \<open>
  The development embeds \<^verbatim>\<open>xbmc/cores/RetroPlayer/rendering/RPRenderManager.cpp\<close>.
  Member variables keep their names (\<open>m_state\<close>, \<open>m_bFlush\<close>, ...). Pointers to the
  collaborators' objects (buffer pools, render buffers, renderers) are addresses, and the
  objects live in stores of the state. Calls into collaborators whose effect stays outside
  the manager are appended to a call trace. Locks (\<^verbatim>\<open>CSingleLock\<close>, \<^verbatim>\<open>CSingleExit\<close>) and
  \<^verbatim>\<open>CLog::Log\<close> are not part of the sequential model.
\<close>

datatype RENDER_STATE = UNCONFIGURED | CONFIGURING | CONFIGURED | RECONFIGURING

type_synonym AVPixelFormat = int
type_synonym SCALINGMETHOD = nat
type_synonym VIEWMODE = nat
type_synonym SwsContext = nat
type_synonym pool_ptr = nat
type_synonym buffer_ptr = nat
type_synonym renderer_ptr = nat
type_synonym bytes = "8 word list"

text \<open>What the C++ leaves undefined and the model makes a result.\<close>

datatype error = OutOfBounds | DivisionByZero | NullDereference

text \<open>
  Modelled from the spec: \<^verbatim>\<open>CRenderVideoSettings\<close> (RenderSettings.h is not among the
  sources) is the settings profile of section 4.6: video filter, scaling method, view mode
  and rotation.
\<close>

record CRenderVideoSettings =
  VideoFilter :: string
  ScalingMethod :: SCALINGMETHOD
  RenderViewMode :: VIEWMODE
  RenderRotation :: "32 word"

text \<open>
  Modelled from the spec: \<^verbatim>\<open>IGUIRenderSettings\<close>, the overrides a GUI control asks for
  (\<open>HasVideoFilter\<close>, \<open>HasViewMode\<close>, \<open>HasRotation\<close> and the settings they refer to).
\<close>

record IGUIRenderSettings =
  HasVideoFilter :: bool
  HasViewMode :: bool
  HasRotation :: bool
  GetSettings :: CRenderVideoSettings

text \<open>
  Modelled from the spec: \<^verbatim>\<open>IRenderBuffer\<close> (section 6: reference count, writable
  memory, format, width, height, frame size, loaded flag). \<open>memory\<close> is the region
  \<^verbatim>\<open>GetMemory()\<close> points to, \<open>None\<close> when it returns \<^verbatim>\<open>nullptr\<close>.
\<close>

record IRenderBuffer =
  GetPool :: pool_ptr
  GetFormat :: AVPixelFormat
  GetWidth :: "32 word"
  GetHeight :: "32 word"
  GetFrameSize :: "64 word"
  memory :: "bytes option"
  refs :: nat
  IsLoaded :: bool

text \<open>
  Modelled from the spec: \<^verbatim>\<open>CRPBaseRenderer\<close>, bound to one buffer pool for its
  lifetime, with its compatibility check and the result of its \<^verbatim>\<open>Configure\<close>.
\<close>

record CRPBaseRenderer =
  GetBufferPool :: pool_ptr
  IsCompatible :: "CRenderVideoSettings \<Rightarrow> bool"
  ConfigureResult :: "AVPixelFormat \<Rightarrow> 32 word \<Rightarrow> 32 word \<Rightarrow> bool"

record sws_params =
  srcW :: "32 word"
  srcH :: "32 word"
  srcFormat :: AVPixelFormat
  dstW :: "32 word"
  dstH :: "32 word"
  dstFormat :: AVPixelFormat
  flags :: int

datatype mem_target = BufferMemory buffer_ptr | CachedFrame

text \<open>Calls that leave the manager, in the order the code makes them.\<close>

datatype event =
    PostMsg_SWITCHTOFULLSCREEN
  | Renderer_Configure renderer_ptr AVPixelFormat "32 word" "32 word"
  | Renderer_FrameMove renderer_ptr
  | Renderer_Flush renderer_ptr
  | FlushPools
  | Renderer_PreRender renderer_ptr bool
  | Renderer_SetBuffer renderer_ptr buffer_ptr
  | Renderer_RenderFrame renderer_ptr bool "32 word"
  | Renderer_SetScalingMethod renderer_ptr SCALINGMETHOD
  | Renderer_SetViewMode renderer_ptr VIEWMODE
  | Renderer_SetRenderRotation renderer_ptr "32 word"
  | Buffer_UploadTexture buffer_ptr
  | Buffer_ReleaseMemory buffer_ptr
  | Call_memcpy mem_target nat nat nat
  | Call_sws_scale SwsContext buffer_ptr "32 word" "32 word" "32 word"
  | Call_sws_freeContext SwsContext
  | Context_SetRenderingResolution
  | Context_SetFullScreenVideo bool
  | Context_SetViewWindow
  | Context_SetTransform
  | Context_SetScissors
  | Context_Clear
  | Context_RemoveTransform

text \<open>
  The collaborators whose code is outside the file, taken as parameters:
  \<^verbatim>\<open>CRenderTranslator::TranslateWidthToBytes\<close>, libswscale, the buffer pools' queries,
  \<^verbatim>\<open>CRPProcessInfo\<close> (renderer factory, scaling methods), \<^verbatim>\<open>IRenderBuffer::UploadTexture\<close>
  and the render context.
\<close>

record environment =
  TranslateWidthToBytes :: "32 word \<Rightarrow> AVPixelFormat \<Rightarrow> 32 word"
  sws_getCachedContext :: "SwsContext option \<Rightarrow> sws_params \<Rightarrow> SwsContext option"
  sws_scale :: "SwsContext \<Rightarrow> bytes \<Rightarrow> 32 word \<Rightarrow> 32 word \<Rightarrow> bytes \<Rightarrow> 32 word \<Rightarrow> bytes"
  HasVisibleRenderer :: "pool_ptr \<Rightarrow> bool"
  PoolIsCompatible :: "pool_ptr \<Rightarrow> CRenderVideoSettings \<Rightarrow> bool"
  CreateRenderer :: "pool_ptr \<Rightarrow> CRenderVideoSettings \<Rightarrow> CRPBaseRenderer option"
  HasScalingMethod :: "SCALINGMETHOD \<Rightarrow> bool"
  GetDefaultScalingMethod :: SCALINGMETHOD
  UploadTexture :: "buffer_ptr \<Rightarrow> bool"
  IsFullScreenVideo :: bool
  MergeAlpha :: "32 word \<Rightarrow> 32 word"

text \<open>
  The members of \<^verbatim>\<open>CRPRenderManager\<close> and the objects it reaches: the pool registry in
  registration order, each pool's free buffers, the buffer and renderer objects, and the
  trace. \<open>m_scalers\<close> is a \<^verbatim>\<open>std::map\<close>, kept as a list of entries in key order.
  \<open>m_renderers\<close> is a \<^verbatim>\<open>std::set\<close> of shared pointers, iterated in address order;
  renderer addresses are allocation numbers (\<open>next_renderer\<close>), so the list is kept in
  that order. \<open>m_speed\<close> is a \<^verbatim>\<open>double\<close> that is only stored and compared with 0.0.
\<close>

record world =
  m_state :: RENDER_STATE
  m_bFlush :: bool
  m_format :: AVPixelFormat
  m_width :: "32 word"
  m_height :: "32 word"
  m_maxWidth :: "32 word"
  m_maxHeight :: "32 word"
  m_speed :: real
  m_renderBuffers :: "buffer_ptr list"
  m_cachedFrame :: bytes
  m_bHasCachedFrame :: bool
  m_renderers :: "renderer_ptr list"
  m_scalers :: "(AVPixelFormat \<times> SwsContext option) list"
  m_renderSettings :: CRenderVideoSettings
  m_bTriggerUpdateResolution :: bool
  GetBufferPools :: "pool_ptr list"
  pool_free :: "pool_ptr \<Rightarrow> buffer_ptr list"
  buffer_of :: "buffer_ptr \<Rightarrow> IRenderBuffer"
  renderer_of :: "renderer_ptr \<Rightarrow> CRPBaseRenderer"
  next_renderer :: renderer_ptr
  trace :: "event list"

definition call :: "event \<Rightarrow> world \<Rightarrow> world" where
  "call e w = w\<lparr>trace := trace w @ [e]\<rparr>"

definition calls :: "event list \<Rightarrow> world \<Rightarrow> world" where
  "calls es w = w\<lparr>trace := trace w @ es\<rparr>"

subsection \<open>Render buffers and their pools\<close>

text \<open>
  Modelled from the spec: \<^verbatim>\<open>IRenderBuffer::Acquire\<close>, \<^verbatim>\<open>Release\<close> and \<^verbatim>\<open>SetLoaded\<close>
  (IRenderBuffer.h and the pool implementations are not among the sources). A buffer counts
  its references; when the last one is released it goes back, unloaded, to the free
  buffers of the pool that owns it. Releasing a buffer nobody holds changes nothing.
\<close>

definition Acquire :: "buffer_ptr \<Rightarrow> world \<Rightarrow> world" where
  "Acquire b w = w\<lparr>buffer_of := (buffer_of w)(b := (buffer_of w b)\<lparr>refs := Suc (refs (buffer_of w b))\<rparr>)\<rparr>"

definition Release :: "buffer_ptr \<Rightarrow> world \<Rightarrow> world" where
  "Release b w =
    (let rb = buffer_of w b in
     if refs rb = 0 then w
     else if refs rb = 1 then
       w\<lparr>buffer_of := (buffer_of w)(b := rb\<lparr>refs := 0, IsLoaded := False\<rparr>),
         pool_free := (pool_free w)(GetPool rb := pool_free w (GetPool rb) @ [b])\<rparr>
     else w\<lparr>buffer_of := (buffer_of w)(b := rb\<lparr>refs := refs rb - 1\<rparr>)\<rparr>)"

definition SetLoaded :: "buffer_ptr \<Rightarrow> bool \<Rightarrow> world \<Rightarrow> world" where
  "SetLoaded b v w = w\<lparr>buffer_of := (buffer_of w)(b := (buffer_of w b)\<lparr>IsLoaded := v\<rparr>)\<rparr>"

text \<open>
  Modelled from the spec: \<^verbatim>\<open>IRenderBufferPool::GetBuffer(size)\<close>
  (\<open>getBuffer(size) -> Buffer | none\<close>): the pool hands out the first of its free buffers
  with one reference held, or nothing when it has none to give.
\<close>

definition GetBuffer :: "pool_ptr \<Rightarrow> 64 word \<Rightarrow> world \<Rightarrow> buffer_ptr option \<times> world" where
  "GetBuffer pool size' w =
    (case pool_free w pool of
       [] \<Rightarrow> (None, w)
     | b # rest \<Rightarrow> (Some b, Acquire b (w\<lparr>pool_free := (pool_free w)(pool := rest)\<rparr>)))"

subsection \<open>Memory\<close>

text \<open>
  \<^verbatim>\<open>std::memcpy(target + toff, source + soff, n)\<close> on regions of known extent; a copy that
  leaves either region is an error of the model.
\<close>

definition memcpy :: "bytes \<Rightarrow> nat \<Rightarrow> bytes \<Rightarrow> nat \<Rightarrow> nat \<Rightarrow> error + bytes" where
  "memcpy target toff source soff n =
    (if toff + n \<le> length target \<and> soff + n \<le> length source
     then Inr (take toff target @ take n (drop soff source) @ drop (toff + n) target)
     else Inl OutOfBounds)"

definition memcpy_buffer :: "buffer_ptr \<Rightarrow> nat \<Rightarrow> bytes \<Rightarrow> nat \<Rightarrow> nat \<Rightarrow> world \<Rightarrow> error + world" where
  "memcpy_buffer b toff source soff n w =
    (case memory (buffer_of w b) of
       None \<Rightarrow> Inl NullDereference
     | Some target \<Rightarrow>
         (case memcpy target toff source soff n of
            Inl e \<Rightarrow> Inl e
          | Inr target' \<Rightarrow>
              Inr (call (Call_memcpy (BufferMemory b) toff soff n)
                     (w\<lparr>buffer_of := (buffer_of w)(b := (buffer_of w b)\<lparr>memory := Some target'\<rparr>)\<rparr>))))"

text \<open>\<^verbatim>\<open>std::vector<uint8_t>::resize(n)\<close>: truncate, or pad with zero bytes.\<close>

definition vector_resize :: "nat \<Rightarrow> bytes \<Rightarrow> bytes" where
  "vector_resize n xs = take n xs @ replicate (n - length xs) 0"

text \<open>\<open>m_scalers[key]\<close> read (a missing entry reads as \<^verbatim>\<open>nullptr\<close>) and assigned.\<close>

definition scalers_lookup :: "(AVPixelFormat \<times> SwsContext option) list \<Rightarrow> AVPixelFormat \<Rightarrow> SwsContext option" where
  "scalers_lookup xs k = (case map_of xs k of None \<Rightarrow> None | Some c \<Rightarrow> c)"

fun scalers_update :: "AVPixelFormat \<Rightarrow> SwsContext option \<Rightarrow> (AVPixelFormat \<times> SwsContext option) list \<Rightarrow> (AVPixelFormat \<times> SwsContext option) list" where
  "scalers_update k v [] = [(k, v)]"
| "scalers_update k v ((k', v') # xs) =
     (if k = k' then (k, v) # xs
      else if k < k' then (k, v) # (k', v') # xs
      else (k', v') # scalers_update k v xs)"

text \<open>The value of libswscale's macro \<^verbatim>\<open>SWS_FAST_BILINEAR\<close>.\<close>

definition SWS_FAST_BILINEAR :: int where
  "SWS_FAST_BILINEAR = 1"

section \<open>The operations of CRPRenderManager\<close>

subsection \<open>Configuration state machine\<close>

definition Flush :: "world \<Rightarrow> world" where
  "Flush w = w\<lparr>m_bFlush := True\<rparr>"

definition Configure :: "AVPixelFormat \<Rightarrow> 32 word \<Rightarrow> 32 word \<Rightarrow> 32 word \<Rightarrow> 32 word \<Rightarrow> world \<Rightarrow> bool \<times> world" where
  "Configure format nominalWidth nominalHeight maxWidth maxHeight w =
    (let w1 = w\<lparr>m_format := format, m_maxWidth := maxWidth, m_maxHeight := maxHeight,
                m_width := nominalWidth, m_height := nominalHeight\<rparr>
     in if m_state w1 = UNCONFIGURED then (True, w1\<lparr>m_state := CONFIGURING\<rparr>)
        else (True, (Flush w1)\<lparr>m_state := RECONFIGURING\<rparr>))"

definition SetSpeed :: "real \<Rightarrow> world \<Rightarrow> world" where
  "SetSpeed speed w = w\<lparr>m_speed := speed\<rparr>"

definition TriggerUpdateResolution :: "world \<Rightarrow> world" where
  "TriggerUpdateResolution w = w\<lparr>m_bTriggerUpdateResolution := True\<rparr>"

definition ClearBackground :: "world \<Rightarrow> world" where
  "ClearBackground w = call Context_Clear w"

definition Deinitialize :: "world \<Rightarrow> world" where
  "Deinitialize w =
    (let w1 = calls (map Call_sws_freeContext (List.map_filter snd (m_scalers w))) w;
         w2 = w1\<lparr>m_scalers := []\<rparr>;
         w3 = fold Release (m_renderBuffers w2) w2;
         w4 = w3\<lparr>m_renderBuffers := []\<rparr>;
         w5 = w4\<lparr>m_renderers := []\<rparr>
     in w5\<lparr>m_state := UNCONFIGURED\<rparr>)"

definition CheckFlush :: "world \<Rightarrow> world" where
  "CheckFlush w =
    (if m_bFlush w then
       (let w1 = fold Release (m_renderBuffers w) w;
            w2 = w1\<lparr>m_renderBuffers := [], m_cachedFrame := [], m_bHasCachedFrame := False\<rparr>;
            w3 = calls (map Renderer_Flush (m_renderers w2)) w2;
            w4 = call FlushPools w3
        in w4\<lparr>m_bFlush := False\<rparr>)
     else w)"

definition FrameMove :: "world \<Rightarrow> world" where
  "FrameMove w =
    (let w1 = CheckFlush w;
         w2 = (if m_state w1 = CONFIGURING then
                 (call PostMsg_SWITCHTOFULLSCREEN w1)\<lparr>m_state := CONFIGURED\<rparr>
               else if m_state w1 = RECONFIGURING then
                 (calls (map (\<lambda>renderer. Renderer_Configure renderer (m_format w1) (m_width w1) (m_height w1))
                           (m_renderers w1)) w1)\<lparr>m_state := CONFIGURED\<rparr>
               else w1);
         bIsConfigured = (m_state w2 = CONFIGURED)
     in if bIsConfigured then calls (map Renderer_FrameMove (m_renderers w2)) w2 else w2)"

subsection \<open>Pixel conversion\<close>

fun CopyFrame_rows :: "buffer_ptr \<Rightarrow> 32 word \<Rightarrow> bytes \<Rightarrow> 32 word \<Rightarrow> 32 word \<Rightarrow> nat list \<Rightarrow> world \<Rightarrow> error + world" where
  "CopyFrame_rows renderBuffer targetStride source sourceStride widthBytes [] w = Inr w"
| "CopyFrame_rows renderBuffer targetStride source sourceStride widthBytes (i # rest) w =
     (case memcpy_buffer renderBuffer (unat (targetStride * of_nat i)) source
             (unat (sourceStride * of_nat i)) (unat widthBytes) w of
        Inl e \<Rightarrow> Inl e
      | Inr w' \<Rightarrow> CopyFrame_rows renderBuffer targetStride source sourceStride widthBytes rest w')"

definition CopyFrame_body :: "environment \<Rightarrow> buffer_ptr \<Rightarrow> AVPixelFormat \<Rightarrow> bytes \<Rightarrow> 64 word \<Rightarrow> 32 word \<Rightarrow> 32 word \<Rightarrow> bytes \<Rightarrow> world \<Rightarrow> error + world" where
  "CopyFrame_body env renderBuffer format source size' width height target w =
    (let rb = buffer_of w renderBuffer in
     if height = 0 \<or> GetHeight rb = 0 then Inl DivisionByZero
     else
       (let sourceStride = (ucast (size' div ucast height) :: 32 word);
            targetStride = (ucast (GetFrameSize rb div ucast (GetHeight rb)) :: 32 word)
        in if m_format w = GetFormat rb then
             (if sourceStride = targetStride then
                memcpy_buffer renderBuffer 0 source 0 (unat size') w
              else
                (let widthBytes = TranslateWidthToBytes env width (m_format w)
                 in if widthBytes > 0 then
                      CopyFrame_rows renderBuffer targetStride source sourceStride widthBytes
                        [0..<unat height] w
                    else Inr w))
           else
             (let scalerContext =
                    sws_getCachedContext env (scalers_lookup (m_scalers w) (GetFormat rb))
                      \<lparr>srcW = width, srcH = height, srcFormat = format,
                       dstW = GetWidth rb, dstH = GetHeight rb, dstFormat = GetFormat rb,
                       flags = SWS_FAST_BILINEAR\<rparr>;
                  w1 = w\<lparr>m_scalers := scalers_update (GetFormat rb) scalerContext (m_scalers w)\<rparr>
              in case scalerContext of
                   None \<Rightarrow> Inr w1
                 | Some ctx \<Rightarrow>
                     Inr (call (Call_sws_scale ctx renderBuffer sourceStride height targetStride)
                            (w1\<lparr>buffer_of := (buffer_of w1)(renderBuffer :=
                                   rb\<lparr>memory := Some (sws_scale env ctx source sourceStride height
                                                         target targetStride)\<rparr>)\<rparr>)))))"

definition CopyFrame :: "environment \<Rightarrow> buffer_ptr \<Rightarrow> AVPixelFormat \<Rightarrow> bytes \<Rightarrow> 64 word \<Rightarrow> 32 word \<Rightarrow> 32 word \<Rightarrow> world \<Rightarrow> error + world" where
  "CopyFrame env renderBuffer format source size' width height w =
    (case (case memory (buffer_of w renderBuffer) of
             None \<Rightarrow> Inr w
           | Some target \<Rightarrow> CopyFrame_body env renderBuffer format source size' width height target w) of
       Inl e \<Rightarrow> Inl e
     | Inr w' \<Rightarrow> Inr (call (Buffer_ReleaseMemory renderBuffer) w'))"

subsection \<open>Frame ingestion\<close>

text \<open>The loop of \<open>AddFrame\<close> over the buffer pools, collecting \<open>renderBuffers\<close>.\<close>

fun AddFrame_pools :: "environment \<Rightarrow> pool_ptr list \<Rightarrow> bytes \<Rightarrow> 64 word \<Rightarrow> 32 word \<Rightarrow> 32 word \<Rightarrow> buffer_ptr list \<Rightarrow> world \<Rightarrow> error + (buffer_ptr list \<times> world)" where
  "AddFrame_pools env [] data size' width height renderBuffers w = Inr (renderBuffers, w)"
| "AddFrame_pools env (bufferPool # rest) data size' width height renderBuffers w =
     (if \<not> HasVisibleRenderer env bufferPool then
        AddFrame_pools env rest data size' width height renderBuffers w
      else
        (case GetBuffer bufferPool size' w of
           (Some renderBuffer, w1) \<Rightarrow>
             (case CopyFrame env renderBuffer (m_format w1) data size' width height w1 of
                Inl e \<Rightarrow> Inl e
              | Inr w2 \<Rightarrow>
                  AddFrame_pools env rest data size' width height (renderBuffers @ [renderBuffer]) w2)
         | (None, w1) \<Rightarrow> AddFrame_pools env rest data size' width height renderBuffers w1))"

text \<open>Lines 148 and 149: every buffer of the render buffer set is released.\<close>

definition AddFrame_release :: "world \<Rightarrow> world" where
  "AddFrame_release w = fold Release (m_renderBuffers w) w"

text \<open>
  Lines 145 to 171: the previous buffers are released, the new buffers become the set
  (line 150), and a paused frame is cached.
\<close>

definition AddFrame_publish :: "bytes \<Rightarrow> 64 word \<Rightarrow> buffer_ptr list \<Rightarrow> world \<Rightarrow> error + world" where
  "AddFrame_publish data size' renderBuffers w =
    (let w1 = AddFrame_release w;
         w2 = w1\<lparr>m_renderBuffers := renderBuffers\<rparr>
     in if m_speed w2 = 0 then
          (let cachedFrame = m_cachedFrame w2;
               w3 = w2\<lparr>m_cachedFrame := []\<rparr>;
               cachedFrame1 = (if \<not> m_bHasCachedFrame w3 then vector_resize (unat size') cachedFrame
                               else cachedFrame);
               w4 = (if \<not> m_bHasCachedFrame w3 then w3\<lparr>m_bHasCachedFrame := True\<rparr> else w3)
           in if cachedFrame1 \<noteq> [] then
                (case memcpy cachedFrame1 0 data 0 (unat size') of
                   Inl e \<Rightarrow> Inl e
                 | Inr cachedFrame2 \<Rightarrow>
                     Inr ((call (Call_memcpy CachedFrame 0 0 (unat size')) w4)
                            \<lparr>m_cachedFrame := cachedFrame2\<rparr>))
              else Inr w4)
        else Inr w2)"

text \<open>\<open>data\<close> is the region the pointer refers to, \<open>None\<close> for \<^verbatim>\<open>nullptr\<close>.\<close>

definition AddFrame :: "environment \<Rightarrow> bytes option \<Rightarrow> 64 word \<Rightarrow> 32 word \<Rightarrow> 32 word \<Rightarrow> 32 word \<Rightarrow> world \<Rightarrow> error + world" where
  "AddFrame env data size' width height orientationDegCCW w =
    (if m_bFlush w \<or> m_state w \<noteq> CONFIGURED then Inr w
     else if data = None \<or> size' = 0 \<or> width = 0 \<or> height = 0 then Inr w
     else if width \<noteq> m_width w \<or> height \<noteq> m_height w then
       Inr (snd (Configure (m_format w) width height (m_maxWidth w) (m_maxHeight w) w))
     else
       (case AddFrame_pools env (GetBufferPools w) (the data) size' width height [] w of
          Inl e \<Rightarrow> Inl e
        | Inr (renderBuffers, w1) \<Rightarrow> AddFrame_publish (the data) size' renderBuffers w1))"

subsection \<open>Access to the render buffer set\<close>

definition HasRenderBuffer :: "pool_ptr \<Rightarrow> world \<Rightarrow> bool" where
  "HasRenderBuffer bufferPool w =
    (case find (\<lambda>renderBuffer. GetPool (buffer_of w renderBuffer) = bufferPool) (m_renderBuffers w) of
       Some it \<Rightarrow> True
     | None \<Rightarrow> False)"

definition GetRenderBuffer :: "pool_ptr \<Rightarrow> world \<Rightarrow> buffer_ptr option \<times> world" where
  "GetRenderBuffer bufferPool w =
    (if m_bFlush w \<or> m_state w \<noteq> CONFIGURED then (None, w)
     else
       (case find (\<lambda>renderBuffer. GetPool (buffer_of w renderBuffer) = bufferPool) (m_renderBuffers w) of
          Some renderBuffer \<Rightarrow> (Some renderBuffer, Acquire renderBuffer w)
        | None \<Rightarrow> (None, w)))"

definition CreateRenderBuffer :: "environment \<Rightarrow> pool_ptr \<Rightarrow> world \<Rightarrow> error + world" where
  "CreateRenderBuffer env bufferPool w =
    (if m_bFlush w \<or> m_state w \<noteq> CONFIGURED then Inr w
     else if \<not> HasRenderBuffer bufferPool w \<and> m_bHasCachedFrame w then
       (let cachedFrame = m_cachedFrame w;
            w0 = w\<lparr>m_cachedFrame := []\<rparr>
        in if cachedFrame \<noteq> [] then
             (case GetBuffer bufferPool (of_nat (length cachedFrame)) w0 of
                (Some renderBuffer, w1) \<Rightarrow>
                  (case CopyFrame env renderBuffer (m_format w1) cachedFrame
                          (of_nat (length cachedFrame)) (m_width w1) (m_height w1) w1 of
                     Inl e \<Rightarrow> Inl e
                   | Inr w2 \<Rightarrow>
                       Inr (w2\<lparr>m_renderBuffers := m_renderBuffers w2 @ [renderBuffer],
                                m_cachedFrame := cachedFrame\<rparr>))
              | (None, w1) \<Rightarrow> Inr (w1\<lparr>m_cachedFrame := cachedFrame\<rparr>))
           else Inr w0)
     else Inr w)"

subsection \<open>Renderer resolution\<close>

definition GetEffectiveSettings :: "environment \<Rightarrow> IGUIRenderSettings option \<Rightarrow> world \<Rightarrow> CRenderVideoSettings" where
  "GetEffectiveSettings env settings w =
    (let effectiveSettings = m_renderSettings w;
         effectiveSettings1 =
           (case settings of
              None \<Rightarrow> effectiveSettings
            | Some s \<Rightarrow>
                (let e1 = (if HasVideoFilter s
                           then effectiveSettings\<lparr>VideoFilter := VideoFilter (GetSettings s)\<rparr>
                           else effectiveSettings);
                     e2 = (if HasViewMode s
                           then e1\<lparr>RenderViewMode := RenderViewMode (GetSettings s)\<rparr> else e1)
                 in if HasRotation s
                    then e2\<lparr>RenderRotation := RenderRotation (GetSettings s)\<rparr> else e2))
     in if \<not> HasScalingMethod env (ScalingMethod effectiveSettings1)
        then effectiveSettings1\<lparr>ScalingMethod := GetDefaultScalingMethod env\<rparr>
        else effectiveSettings1)"

text \<open>The overload of \<open>GetRenderer\<close> for one buffer pool.\<close>

definition GetRenderer_pool :: "environment \<Rightarrow> pool_ptr \<Rightarrow> CRenderVideoSettings \<Rightarrow> world \<Rightarrow> error + (renderer_ptr option \<times> world)" where
  "GetRenderer_pool env bufferPool renderSettings w =
    (if \<not> PoolIsCompatible env bufferPool renderSettings then Inr (None, w)
     else
       (case find (\<lambda>it. GetBufferPool (renderer_of w it) = bufferPool
                        \<and> IsCompatible (renderer_of w it) renderSettings) (m_renderers w) of
          Some it \<Rightarrow> Inr (Some it, w)
        | None \<Rightarrow>
            (case CreateRenderer env bufferPool renderSettings of
               None \<Rightarrow> Inr (None, w)
             | Some obj \<Rightarrow>
                 (let renderer = next_renderer w;
                      w1 = call (Renderer_Configure renderer (m_format w) (m_width w) (m_height w)) w
                  in if ConfigureResult obj (m_format w) (m_width w) (m_height w) then
                       (case CreateRenderBuffer env (GetBufferPool obj) w1 of
                          Inl e \<Rightarrow> Inl e
                        | Inr w2 \<Rightarrow>
                            Inr (Some renderer,
                                 w2\<lparr>m_renderers := m_renderers w2 @ [renderer],
                                    renderer_of := (renderer_of w2)(renderer := obj),
                                    next_renderer := Suc renderer\<rparr>))
                     else Inr (None, w1)))))"

fun GetRenderer_pools :: "environment \<Rightarrow> pool_ptr list \<Rightarrow> CRenderVideoSettings \<Rightarrow> world \<Rightarrow> error + (renderer_ptr option \<times> world)" where
  "GetRenderer_pools env [] effectiveRenderSettings w = Inr (None, w)"
| "GetRenderer_pools env (bufferPool # rest) effectiveRenderSettings w =
     (case GetRenderer_pool env bufferPool effectiveRenderSettings w of
        Inl e \<Rightarrow> Inl e
      | Inr (Some renderer, w1) \<Rightarrow> Inr (Some renderer, w1)
      | Inr (None, w1) \<Rightarrow> GetRenderer_pools env rest effectiveRenderSettings w1)"

definition GetRenderer :: "environment \<Rightarrow> IGUIRenderSettings option \<Rightarrow> world \<Rightarrow> error + (renderer_ptr option \<times> world)" where
  "GetRenderer env renderSettings w =
    (if m_state w = UNCONFIGURED then Inr (None, w)
     else
       (let effectiveRenderSettings = GetEffectiveSettings env renderSettings w
        in case GetRenderer_pools env (GetBufferPools w) effectiveRenderSettings w of
             Inl e \<Rightarrow> Inl e
           | Inr (None, w1) \<Rightarrow> Inr (None, w1)
           | Inr (Some renderer, w1) \<Rightarrow>
               Inr (Some renderer,
                    calls [Renderer_SetScalingMethod renderer (ScalingMethod effectiveRenderSettings),
                           Renderer_SetViewMode renderer (RenderViewMode effectiveRenderSettings),
                           Renderer_SetRenderRotation renderer (RenderRotation effectiveRenderSettings)]
                      w1)))"

subsection \<open>Render dispatch\<close>

text \<open>Lines 356 to 370: what \<open>RenderInternal\<close> does with the buffer it obtained.\<close>

definition RenderInternal_buffer :: "environment \<Rightarrow> renderer_ptr \<Rightarrow> buffer_ptr \<Rightarrow> world \<Rightarrow> world" where
  "RenderInternal_buffer env renderer renderBuffer w =
    (let bUploaded = (if \<not> IsLoaded (buffer_of w renderBuffer) then UploadTexture env renderBuffer
                      else True);
         w1 = (if \<not> IsLoaded (buffer_of w renderBuffer)
               then SetLoaded renderBuffer True (call (Buffer_UploadTexture renderBuffer) w)
               else w);
         w2 = (if bUploaded then call (Renderer_SetBuffer renderer renderBuffer) w1 else w1)
     in Release renderBuffer w2)"

definition RenderInternal :: "environment \<Rightarrow> renderer_ptr \<Rightarrow> bool \<Rightarrow> 32 word \<Rightarrow> world \<Rightarrow> error + world" where
  "RenderInternal env renderer bClear alpha w =
    (let w1 = call (Renderer_PreRender renderer bClear) w;
         bufferPool = GetBufferPool (renderer_of w1 renderer);
         (renderBuffer, w2) = GetRenderBuffer bufferPool w1
     in case (if renderBuffer = None then
                (case CreateRenderBuffer env bufferPool w2 of
                   Inl e \<Rightarrow> Inl e
                 | Inr w3 \<Rightarrow> Inr (GetRenderBuffer bufferPool w3))
              else Inr (renderBuffer, w2)) of
          Inl e \<Rightarrow> Inl e
        | Inr (renderBuffer1, w4) \<Rightarrow>
            (let w5 = (case renderBuffer1 of
                         None \<Rightarrow> w4
                       | Some rb \<Rightarrow> RenderInternal_buffer env renderer rb w4)
             in Inr (call (Renderer_RenderFrame renderer bClear alpha) w5)))"

text \<open>
  The resolution and the rectangles passed to the render context are not modelled; its
  calls are recorded in the trace.
\<close>

definition RenderWindow :: "environment \<Rightarrow> bool \<Rightarrow> world \<Rightarrow> error + world" where
  "RenderWindow env bClear w =
    (case GetRenderer env None w of
       Inl e \<Rightarrow> Inl e
     | Inr (None, w1) \<Rightarrow> Inr w1
     | Inr (Some renderer, w1) \<Rightarrow>
         (case RenderInternal env renderer bClear 255 (call Context_SetRenderingResolution w1) of
            Inl e \<Rightarrow> Inl e
          | Inr w2 \<Rightarrow> Inr (call Context_SetRenderingResolution w2)))"

definition RenderControl :: "environment \<Rightarrow> bool \<Rightarrow> bool \<Rightarrow> IGUIRenderSettings option \<Rightarrow> world \<Rightarrow> error + world" where
  "RenderControl env bClear bUseAlpha renderSettings w =
    (case GetRenderer env renderSettings w of
       Inl e \<Rightarrow> Inl e
     | Inr (None, w1) \<Rightarrow> Inr w1
     | Inr (Some renderer, w1) \<Rightarrow>
         (let bWasFullscreen = IsFullScreenVideo env;
              w2 = (if bWasFullscreen then call (Context_SetFullScreenVideo False) w1 else w1)
          in case renderSettings of
               None \<Rightarrow> Inl NullDereference
             | Some rs \<Rightarrow>
                 (let w3 = calls [Context_SetViewWindow, Context_SetTransform] w2;
                      w4 = (if bClear
                            then calls [Context_SetScissors, Context_Clear, Context_SetScissors] w3
                            else w3);
                      alpha = (if bUseAlpha then drop_bit 24 (MergeAlpha env 0xFF000000) else 255)
                  in case RenderInternal env renderer False alpha w4 of
                       Inl e \<Rightarrow> Inl e
                     | Inr w5 \<Rightarrow>
                         (let w6 = call Context_RemoveTransform w5
                          in Inr (if bWasFullscreen
                                  then call (Context_SetFullScreenVideo True) w6 else w6)))))"

subsection \<open>The public interface as operations\<close>

text \<open>
  The entry points the producer and the presentation loop call (section 6 of the
  specification). \<open>Initialize\<close> only writes to the log. The two queries
  \<open>SupportsRenderFeature\<close> and \<open>SupportsScalingMethod\<close> are \<^verbatim>\<open>const\<close> and are left out.
\<close>

datatype operation =
    Op_Initialize
  | Op_Deinitialize
  | Op_Configure AVPixelFormat "32 word" "32 word" "32 word" "32 word"
  | Op_AddFrame "bytes option" "64 word" "32 word" "32 word" "32 word"
  | Op_SetSpeed real
  | Op_FrameMove
  | Op_Flush
  | Op_TriggerUpdateResolution
  | Op_ClearBackground
  | Op_RenderWindow bool
  | Op_RenderControl bool bool "IGUIRenderSettings option"

fun step :: "environment \<Rightarrow> operation \<Rightarrow> world \<Rightarrow> error + world" where
  "step env Op_Initialize w = Inr w"
| "step env Op_Deinitialize w = Inr (Deinitialize w)"
| "step env (Op_Configure format nominalWidth nominalHeight maxWidth maxHeight) w =
     Inr (snd (Configure format nominalWidth nominalHeight maxWidth maxHeight w))"
| "step env (Op_AddFrame data size' width height orientationDegCCW) w =
     AddFrame env data size' width height orientationDegCCW w"
| "step env (Op_SetSpeed speed) w = Inr (SetSpeed speed w)"
| "step env Op_FrameMove w = Inr (FrameMove w)"
| "step env Op_Flush w = Inr (Flush w)"
| "step env Op_TriggerUpdateResolution w = Inr (TriggerUpdateResolution w)"
| "step env Op_ClearBackground w = Inr (ClearBackground w)"
| "step env (Op_RenderWindow bClear) w = RenderWindow env bClear w"
| "step env (Op_RenderControl bClear bUseAlpha renderSettings) w =
     RenderControl env bClear bUseAlpha renderSettings w"

fun run :: "environment \<Rightarrow> operation list \<Rightarrow> world \<Rightarrow> error + world" where
  "run env [] w = Inr w"
| "run env (op # ops) w = (case step env op w of Inl e \<Rightarrow> Inl e | Inr w' \<Rightarrow> run env ops w')"

section \<open>A concrete system\<close>

text \<open>
  One buffer pool (address 0) owning two free buffers of 2 x 2 pixels with four bytes per
  pixel, a renderer factory that always succeeds, and an upload that always fails.
\<close>

definition env_ex :: environment where
  "env_ex = \<lparr>TranslateWidthToBytes = (\<lambda>width format. width * 4),
     sws_getCachedContext = (\<lambda>ctx params. Some 1),
     sws_scale = (\<lambda>ctx source sourceStride height target targetStride. target),
     HasVisibleRenderer = (\<lambda>pool. True),
     PoolIsCompatible = (\<lambda>pool settings. True),
     CreateRenderer = (\<lambda>pool settings.
        Some \<lparr>GetBufferPool = pool, IsCompatible = (\<lambda>s. True),
              ConfigureResult = (\<lambda>format width height. True)\<rparr>),
     HasScalingMethod = (\<lambda>method. True),
     GetDefaultScalingMethod = 0,
     UploadTexture = (\<lambda>renderBuffer. False),
     IsFullScreenVideo = False,
     MergeAlpha = (\<lambda>color. color)\<rparr>"

definition buffer_ex :: IRenderBuffer where
  "buffer_ex = \<lparr>GetPool = 0, GetFormat = 0, GetWidth = 2, GetHeight = 2, GetFrameSize = 16,
     memory = Some (replicate 16 0), refs = 0, IsLoaded = False\<rparr>"

definition world_ex :: world where
  "world_ex = \<lparr>m_state = UNCONFIGURED, m_bFlush = False, m_format = 0, m_width = 0,
     m_height = 0, m_maxWidth = 0, m_maxHeight = 0, m_speed = 1, m_renderBuffers = [],
     m_cachedFrame = [], m_bHasCachedFrame = False, m_renderers = [], m_scalers = [],
     m_renderSettings =
       \<lparr>VideoFilter = [], ScalingMethod = 0, RenderViewMode = 0, RenderRotation = 0\<rparr>,
     m_bTriggerUpdateResolution = False,
     GetBufferPools = [0], pool_free = (\<lambda>pool. if pool = 0 then [0, 1] else []),
     buffer_of = (\<lambda>renderBuffer. buffer_ex),
     renderer_of = (\<lambda>renderer. \<lparr>GetBufferPool = 0, IsCompatible = (\<lambda>s. False),
                                  ConfigureResult = (\<lambda>format width height. False)\<rparr>),
     next_renderer = 0, trace = []\<rparr>"

text \<open>The same system configured for 2 x 2 frames of format 0.\<close>

definition world_configured :: world where
  "world_configured = world_ex\<lparr>m_state := CONFIGURED, m_width := 2, m_height := 2,
     m_maxWidth := 2, m_maxHeight := 2\<rparr>"

definition frame_ex :: bytes where
  "frame_ex = [1, 2, 3, 4, 5, 6, 7, 8, 9, 10, 11, 12, 13, 14, 15, 16]"

section \<open>What an operation leaves alone\<close>

text \<open>
  \<open>buffers_only w w'\<close>: from \<open>w\<close> to \<open>w'\<close> only buffer objects, the pools' free
  buffers, the converter contexts and the trace may differ, and no buffer changed its pool.
\<close>

definition buffers_only :: "world \<Rightarrow> world \<Rightarrow> bool" where
  "buffers_only w w' \<longleftrightarrow>
     m_state w' = m_state w \<and> m_bFlush w' = m_bFlush w \<and> m_format w' = m_format w
     \<and> m_width w' = m_width w \<and> m_height w' = m_height w \<and> m_maxWidth w' = m_maxWidth w
     \<and> m_maxHeight w' = m_maxHeight w \<and> m_speed w' = m_speed w
     \<and> m_renderBuffers w' = m_renderBuffers w \<and> m_cachedFrame w' = m_cachedFrame w
     \<and> m_bHasCachedFrame w' = m_bHasCachedFrame w \<and> m_renderers w' = m_renderers w
     \<and> m_renderSettings w' = m_renderSettings w \<and> GetBufferPools w' = GetBufferPools w
     \<and> renderer_of w' = renderer_of w \<and> next_renderer w' = next_renderer w
     \<and> (\<forall>b. GetPool (buffer_of w' b) = GetPool (buffer_of w b))"


text \<open>
  \<open>config_same w w'\<close>: configuration, flush flag, speed, settings, cached frame and pool
  registry are the same in \<open>w'\<close> as in \<open>w\<close>, and no buffer changed its pool.
\<close>

definition config_same :: "world \<Rightarrow> world \<Rightarrow> bool" where
  "config_same w w' \<longleftrightarrow>
     m_state w' = m_state w \<and> m_bFlush w' = m_bFlush w \<and> m_format w' = m_format w
     \<and> m_width w' = m_width w \<and> m_height w' = m_height w \<and> m_maxWidth w' = m_maxWidth w
     \<and> m_maxHeight w' = m_maxHeight w \<and> m_speed w' = m_speed w
     \<and> m_cachedFrame w' = m_cachedFrame w \<and> m_bHasCachedFrame w' = m_bHasCachedFrame w
     \<and> m_renderSettings w' = m_renderSettings w \<and> GetBufferPools w' = GetBufferPools w
     \<and> (\<forall>b. GetPool (buffer_of w' b) = GetPool (buffer_of w b))"


text \<open>A reconfiguration is pending and one renderer (address 0) exists.\<close>

definition world_reconfiguring :: world where
  "world_reconfiguring = world_configured\<lparr>m_state := RECONFIGURING, m_bFlush := True,
     m_renderers := [0], next_renderer := 1\<rparr>"

text \<open>No pool has a visible renderer; playback is paused; a frame has been cached.\<close>

definition env_hidden :: environment where
  "env_hidden = env_ex\<lparr>HasVisibleRenderer := (\<lambda>pool. False)\<rparr>"

definition world_paused :: world where
  "world_paused = world_configured\<lparr>m_speed := 0\<rparr>"

definition world_cached :: world where
  "world_cached = world_paused\<lparr>m_bHasCachedFrame := True, m_cachedFrame := frame_ex,
     trace := [Call_memcpy CachedFrame 0 0 16]\<rparr>"


definition world_recached :: world where
  "world_recached = world_cached\<lparr>m_cachedFrame :=
       [21, 22, 23, 24, 25, 26, 27, 28, 9, 10, 11, 12, 13, 14, 15, 16],
     trace := [Call_memcpy CachedFrame 0 0 16, Call_memcpy CachedFrame 0 0 8]\<rparr>"

text \<open>The cached frame has seeded buffer 0 of pool 0.\<close>

definition world_seeded :: world where
  "world_seeded = world_cached\<lparr>m_renderBuffers := [0],
     pool_free := (pool_free world_cached)(0 := [1]),
     buffer_of := (buffer_of world_cached)(0 := buffer_ex\<lparr>memory := Some frame_ex, refs := 1\<rparr>),
     trace := trace world_cached @ [Call_memcpy (BufferMemory 0) 0 0 16, Buffer_ReleaseMemory 0]\<rparr>"






section \<open>Invariants of the render buffer set\<close>

text \<open>
  The pools are well formed when no pool lists a free buffer twice and every free buffer
  belongs to the pool that lists it and is held by nobody.
\<close>

definition pools_wf :: "world \<Rightarrow> bool" where
  "pools_wf w \<longleftrightarrow>
     (\<forall>pool. distinct (pool_free w pool)
        \<and> (\<forall>b \<in> set (pool_free w pool). refs (buffer_of w b) = 0 \<and> GetPool (buffer_of w b) = pool))"


text \<open>
  The invariant of the render buffer set: at most one buffer per pool, and every buffer
  of the set is held (its reference count is positive).
\<close>

definition buffer_set_inv :: "world \<Rightarrow> bool" where
  "buffer_set_inv w \<longleftrightarrow>
     distinct (map (\<lambda>b. GetPool (buffer_of w b)) (m_renderBuffers w))
     \<and> (\<forall>b \<in> set (m_renderBuffers w). 0 < refs (buffer_of w b))"


text \<open>
  \<open>refs_same w w'\<close>: reference counts, loaded flags, owners and free lists are the same
  in \<open>w'\<close> as in \<open>w\<close>.
\<close>

definition refs_same :: "world \<Rightarrow> world \<Rightarrow> bool" where
  "refs_same w w' \<longleftrightarrow>
     pool_free w' = pool_free w
     \<and> (\<forall>b. refs (buffer_of w' b) = refs (buffer_of w b)
            \<and> GetPool (buffer_of w' b) = GetPool (buffer_of w b)
            \<and> IsLoaded (buffer_of w' b) = IsLoaded (buffer_of w b))"



section \<open>Render dispatch as a sequence of ticks\<close>

text \<open>The operations of render dispatch.\<close>

fun is_dispatch :: "operation \<Rightarrow> bool" where
  "is_dispatch (Op_RenderWindow bClear) = True"
| "is_dispatch (Op_RenderControl bClear bUseAlpha renderSettings) = True"
| "is_dispatch op = False"


text \<open>How often \<open>UploadTexture\<close> has been called on a buffer.\<close>

definition uploads :: "buffer_ptr \<Rightarrow> world \<Rightarrow> nat" where
  "uploads b w = count_list (trace w) (Buffer_UploadTexture b)"


text \<open>
  What render dispatch maintains from \<open>w\<close> to \<open>w'\<close>: the invariants of pools and
  buffer set, the buffers of the set stay in it and stay loaded once they are, and every
  buffer is uploaded at most once more, and then only if it was not a loaded buffer of the
  set, which it is afterwards.
\<close>

definition dispatch_rel :: "world \<Rightarrow> world \<Rightarrow> bool" where
  "dispatch_rel w w' \<longleftrightarrow>
     pools_wf w' \<and> buffer_set_inv w'
     \<and> set (m_renderBuffers w) \<subseteq> set (m_renderBuffers w')
     \<and> (\<forall>b \<in> set (m_renderBuffers w). IsLoaded (buffer_of w b) \<longrightarrow> IsLoaded (buffer_of w' b))
     \<and> (\<forall>b. uploads b w' = uploads b w
            \<or> (uploads b w' = Suc (uploads b w)
                \<and> \<not> (b \<in> set (m_renderBuffers w) \<and> IsLoaded (buffer_of w b))
                \<and> b \<in> set (m_renderBuffers w') \<and> IsLoaded (buffer_of w' b)))"


text \<open>
  The renderer the factory of \<open>env_ex\<close> creates for pool 0, and the system after one
  and after two calls of \<open>RenderWindow\<close> on \<open>world_seeded\<close>.
\<close>

definition renderer_ex :: CRPBaseRenderer where
  "renderer_ex = \<lparr>GetBufferPool = 0, IsCompatible = (\<lambda>s. True),
                   ConfigureResult = (\<lambda>format width height. True)\<rparr>"

definition world_rendered :: world where
  "world_rendered = world_seeded\<lparr>m_renderers := [0],
     renderer_of := (renderer_of world_seeded)(0 := renderer_ex),
     next_renderer := 1,
     buffer_of := (buffer_of world_seeded)
       (0 := buffer_ex\<lparr>memory := Some frame_ex, refs := 1, IsLoaded := True\<rparr>),
     trace := trace world_seeded
       @ [Renderer_Configure 0 0 2 2, Renderer_SetScalingMethod 0 0, Renderer_SetViewMode 0 0,
          Renderer_SetRenderRotation 0 0, Context_SetRenderingResolution,
          Renderer_PreRender 0 False, Buffer_UploadTexture 0, Renderer_RenderFrame 0 False 255,
          Context_SetRenderingResolution]\<rparr>"

definition world_rendered_twice :: world where
  "world_rendered_twice = world_rendered\<lparr>trace := trace world_rendered
       @ [Renderer_SetScalingMethod 0 0, Renderer_SetViewMode 0 0,
          Renderer_SetRenderRotation 0 0, Context_SetRenderingResolution,
          Renderer_PreRender 0 False, Renderer_SetBuffer 0 0, Renderer_RenderFrame 0 False 255,
          Context_SetRenderingResolution]\<rparr>"

section \<open>Repeated renderer resolution\<close>



text \<open>No renderer of the set has an address that is still to be allocated.\<close>

definition renderers_fresh :: "world \<Rightarrow> bool" where
  "renderers_fresh w \<longleftrightarrow> (\<forall>r \<in> set (m_renderers w). r < next_renderer w)"


text \<open>
  \<open>res_same w v\<close>: the renderer set, the renderer objects, the configuration, the base
  settings and the pool registry are the same in \<open>v\<close> as in \<open>w\<close>.
\<close>

definition res_same :: "world \<Rightarrow> world \<Rightarrow> bool" where
  "res_same w v \<longleftrightarrow>
     m_renderers v = m_renderers w \<and> renderer_of v = renderer_of w
     \<and> next_renderer v = next_renderer w \<and> m_state v = m_state w
     \<and> m_format v = m_format w \<and> m_width v = m_width w \<and> m_height v = m_height w
     \<and> m_renderSettings v = m_renderSettings w \<and> GetBufferPools v = GetBufferPools w"





section \<open>Guards of frame ingestion and buffer creation\<close>

text \<open>
  C10. \<open>Configure\<close> returns true for every combination of arguments and every starting
  state; no configuration failure is reported through its result.
\<close>

theorem Configure_returns_true:
  "fst (Configure format nominalWidth nominalHeight maxWidth maxHeight w) = True"
  by (simp add: Configure_def Let_def)

text \<open>
  C1. When a flush is pending, or the state is not \<open>CONFIGURED\<close>, or the data pointer is
  null, or one of size, width, height is zero, \<open>AddFrame\<close> returns the system as it
  found it: no buffer leaves a pool, no byte is written, the render buffer set, the
  cached frame and the state are unchanged, and nothing is added to the trace.
  \<open>CreateRenderBuffer\<close> likewise changes nothing while a flush is pending or the state
  is not \<open>CONFIGURED\<close>.
\<close>

theorem AddFrame_guard_noop:
  "(m_bFlush w \<or> m_state w \<noteq> CONFIGURED \<or> data = None \<or> size' = 0 \<or> width = 0 \<or> height = 0
      \<longrightarrow> AddFrame env data size' width height orientationDegCCW w = Inr w)
   \<and> (m_bFlush w \<or> m_state w \<noteq> CONFIGURED \<longrightarrow> CreateRenderBuffer env bufferPool w = Inr w)"
  by (auto simp add: AddFrame_def CreateRenderBuffer_def)

theorem AddFrame_guard_noop_witness:
  "m_state world_ex \<noteq> CONFIGURED
   \<and> AddFrame env_ex (Some frame_ex) 16 2 2 0 world_ex = Inr world_ex
   \<and> CreateRenderBuffer env_ex 0 world_ex = Inr world_ex
   \<and> AddFrame env_ex (Some frame_ex) 16 2 0 0 world_configured = Inr world_configured"
  using AddFrame_guard_noop [of world_ex "Some frame_ex" 16 2 2 env_ex 0 0]
    AddFrame_guard_noop [of world_configured "Some frame_ex" 16 2 0 env_ex 0 0]
  by (simp add: world_ex_def)



section \<open>Frame lemmas\<close>

lemma buffers_only_refl [simp]: "buffers_only w w"
  by (simp add: buffers_only_def)

lemma buffers_only_trans: "buffers_only w w1 \<Longrightarrow> buffers_only w1 w2 \<Longrightarrow> buffers_only w w2"
  by (simp add: buffers_only_def)

lemma buffers_only_call [simp]: "buffers_only w (call e w)" "buffers_only w (calls es w)"
  by (simp_all add: buffers_only_def call_def calls_def)

lemma buffers_only_Acquire [simp]: "buffers_only w (Acquire b w)"
  by (simp add: buffers_only_def Acquire_def)

lemma buffers_only_SetLoaded [simp]: "buffers_only w (SetLoaded b v w)"
  by (simp add: buffers_only_def SetLoaded_def)

lemma buffers_only_Release [simp]: "buffers_only w (Release b w)"
  by (simp add: buffers_only_def Release_def Let_def)

lemma buffers_only_fold_Release [simp]: "buffers_only w (fold Release bs w)"
proof (induction bs arbitrary: w)
  case Nil
  show ?case by simp
next
  case (Cons b bs)
  show ?case
    using buffers_only_trans [OF buffers_only_Release Cons.IH] by simp
qed

lemma buffers_only_GetBuffer: "GetBuffer pool size' w = (r, w') \<Longrightarrow> buffers_only w w'"
  by (auto simp add: GetBuffer_def buffers_only_def Acquire_def split: list.splits)

lemma buffers_only_memcpy_buffer: "memcpy_buffer b toff source soff n w = Inr w' \<Longrightarrow> buffers_only w w'"
  by (auto simp add: memcpy_buffer_def buffers_only_def call_def split: option.splits sum.splits)

lemma buffers_only_CopyFrame_rows:
  "CopyFrame_rows b ts source ss wb rows w = Inr w' \<Longrightarrow> buffers_only w w'"
proof (induction rows arbitrary: w)
  case Nil
  then show ?case by simp
next
  case (Cons i rows)
  then show ?case
    by (auto split: sum.splits dest!: buffers_only_memcpy_buffer intro: buffers_only_trans)
qed

lemma buffers_only_CopyFrame_body:
  "CopyFrame_body env b format source size' width height target w = Inr w' \<Longrightarrow> buffers_only w w'"
  by (auto simp add: CopyFrame_body_def Let_def buffers_only_def call_def
      split: if_splits option.splits
      dest!: buffers_only_memcpy_buffer buffers_only_CopyFrame_rows)

lemma buffers_only_CopyFrame:
  "CopyFrame env b format source size' width height w = Inr w' \<Longrightarrow> buffers_only w w'"
  by (auto simp add: CopyFrame_def split: option.splits sum.splits
      dest!: buffers_only_CopyFrame_body intro: buffers_only_trans [OF _ buffers_only_call(1)])

lemma config_same_refl [simp]: "config_same w w"
  by (simp add: config_same_def)

lemma config_same_trans: "config_same w w1 \<Longrightarrow> config_same w1 w2 \<Longrightarrow> config_same w w2"
  by (simp add: config_same_def)

lemma buffers_only_config_same: "buffers_only w w' \<Longrightarrow> config_same w w'"
  by (simp add: buffers_only_def config_same_def)

lemma config_same_call [simp]: "config_same w (call e w)" "config_same w (calls es w)"
  by (simp_all add: config_same_def call_def calls_def)

lemma config_same_GetRenderBuffer: "GetRenderBuffer pool w = (r, w') \<Longrightarrow> config_same w w'"
  by (auto simp add: GetRenderBuffer_def config_same_def Acquire_def split: if_splits option.splits)

lemma config_same_CreateRenderBuffer:
  "CreateRenderBuffer env pool w = Inr w' \<Longrightarrow> config_same w w'"
  by (auto simp add: CreateRenderBuffer_def Let_def split: if_splits prod.splits option.splits sum.splits
      dest!: buffers_only_GetBuffer buffers_only_CopyFrame)
    (auto simp add: config_same_def buffers_only_def)

lemma config_same_GetRenderer_pool:
  "GetRenderer_pool env pool settings w = Inr (r, w') \<Longrightarrow> config_same w w'"
  by (auto simp add: GetRenderer_pool_def Let_def split: if_splits option.splits sum.splits
      dest!: config_same_CreateRenderBuffer)
    (auto simp add: config_same_def call_def)

lemma config_same_GetRenderer_pools:
  "GetRenderer_pools env pools settings w = Inr (r, w') \<Longrightarrow> config_same w w'"
proof (induction pools arbitrary: w)
  case Nil
  then show ?case by simp
next
  case (Cons p pools)
  then show ?case
    by (auto split: sum.splits option.splits dest!: config_same_GetRenderer_pool
        intro: config_same_trans)
qed

lemma config_same_GetRenderer:
  "GetRenderer env renderSettings w = Inr (r, w') \<Longrightarrow> config_same w w'"
  by (auto simp add: GetRenderer_def Let_def split: if_splits sum.splits option.splits
      dest!: config_same_GetRenderer_pools)
    (auto simp add: config_same_def calls_def)

lemma config_same_RenderInternal_buffer [simp]:
  "config_same w (RenderInternal_buffer env renderer b w)"
  by (simp add: RenderInternal_buffer_def Let_def config_same_def Release_def SetLoaded_def call_def)

lemma config_same_RenderInternal:
  "RenderInternal env renderer bClear alpha w = Inr w' \<Longrightarrow> config_same w w'"
  by (auto simp add: RenderInternal_def Let_def
      split: prod.splits if_splits sum.splits option.splits
      dest!: config_same_GetRenderBuffer config_same_CreateRenderBuffer)
    (auto simp add: config_same_def call_def RenderInternal_buffer_def Let_def Release_def
      SetLoaded_def)

lemma config_same_RenderWindow:
  "RenderWindow env bClear w = Inr w' \<Longrightarrow> config_same w w'"
  by (auto simp add: RenderWindow_def split: sum.splits option.splits
      dest!: config_same_GetRenderer config_same_RenderInternal)
    (auto simp add: config_same_def call_def)

lemma config_same_RenderControl:
  "RenderControl env bClear bUseAlpha renderSettings w = Inr w' \<Longrightarrow> config_same w w'"
  by (auto simp add: RenderControl_def Let_def split: sum.splits option.splits if_splits
      dest!: config_same_GetRenderer config_same_RenderInternal)
    (auto simp add: config_same_def call_def calls_def)

section \<open>The configuration state machine\<close>

lemma m_state_CheckFlush [simp]: "m_state (CheckFlush w) = m_state w"
  using buffers_only_fold_Release [of w "m_renderBuffers w"]
  by (simp add: CheckFlush_def Let_def call_def calls_def buffers_only_def)

lemma CheckFlush_fields [simp]:
  "m_format (CheckFlush w) = m_format w" "m_width (CheckFlush w) = m_width w"
  "m_height (CheckFlush w) = m_height w" "m_renderers (CheckFlush w) = m_renderers w"
  using buffers_only_fold_Release [of w "m_renderBuffers w"]
  by (simp_all add: CheckFlush_def Let_def call_def calls_def buffers_only_def)

lemma step_keeps_unconfigured:
  assumes "step env op w = Inr w'" and "op \<noteq> Op_FrameMove" and "m_state w \<noteq> CONFIGURED"
  shows "m_state w' \<noteq> CONFIGURED"
proof (cases op)
  case Op_Deinitialize
  with assms show ?thesis by (auto simp add: Deinitialize_def Let_def)
next
  case (Op_Configure f nw nh mw mh)
  with assms show ?thesis by (auto simp add: Configure_def Let_def Flush_def split: if_splits)
next
  case (Op_AddFrame d s wd h o')
  with assms show ?thesis by (auto simp add: AddFrame_def)
next
  case (Op_RenderWindow c)
  with assms config_same_RenderWindow [of env c w w'] show ?thesis
    by (simp add: config_same_def)
next
  case (Op_RenderControl c a rs)
  with assms config_same_RenderControl [of env c a rs w w'] show ?thesis
    by (simp add: config_same_def)
qed (use assms in \<open>auto simp add: SetSpeed_def Flush_def TriggerUpdateResolution_def
      ClearBackground_def call_def\<close>)


text \<open>
  C3. \<open>Configure\<close> never leaves the state \<open>CONFIGURED\<close>: it records format and
  dimensions and goes from \<open>UNCONFIGURED\<close> to \<open>CONFIGURING\<close>, or, from any other state,
  arms a flush and goes to \<open>RECONFIGURING\<close>. Of the operations of the interface only
  \<open>FrameMove\<close> takes the state to \<open>CONFIGURED\<close>, and it does so from \<open>CONFIGURING\<close> and
  from \<open>RECONFIGURING\<close>. From \<open>RECONFIGURING\<close> it first (after the pending flush) calls
  \<open>Configure(m_format, m_width, m_height)\<close> on every renderer of \<open>m_renderers\<close>, then
  sets the state, then calls \<open>FrameMove\<close> on every renderer.
\<close>

theorem Configure_defers_commit:
  "m_state (snd (Configure format nominalWidth nominalHeight maxWidth maxHeight w)) \<noteq> CONFIGURED
   \<and> (m_state w = UNCONFIGURED \<longrightarrow>
        snd (Configure format nominalWidth nominalHeight maxWidth maxHeight w)
          = w\<lparr>m_format := format, m_maxWidth := maxWidth, m_maxHeight := maxHeight,
               m_width := nominalWidth, m_height := nominalHeight, m_state := CONFIGURING\<rparr>)
   \<and> (m_state w \<noteq> UNCONFIGURED \<longrightarrow>
        snd (Configure format nominalWidth nominalHeight maxWidth maxHeight w)
          = w\<lparr>m_format := format, m_maxWidth := maxWidth, m_maxHeight := maxHeight,
               m_width := nominalWidth, m_height := nominalHeight, m_bFlush := True,
               m_state := RECONFIGURING\<rparr>)
   \<and> (step env op w = Inr w' \<and> m_state w \<noteq> CONFIGURED \<and> m_state w' = CONFIGURED
        \<longrightarrow> op = Op_FrameMove)
   \<and> (m_state w = CONFIGURING \<or> m_state w = RECONFIGURING \<longrightarrow> m_state (FrameMove w) = CONFIGURED)
   \<and> (m_state w = RECONFIGURING \<longrightarrow>
        FrameMove w =
          calls (map Renderer_FrameMove (m_renderers w))
            ((calls (map (\<lambda>renderer. Renderer_Configure renderer (m_format w) (m_width w) (m_height w))
                      (m_renderers w))
                (CheckFlush w))\<lparr>m_state := CONFIGURED\<rparr>))"
proof -
  have a: "step env op w = Inr w' \<and> m_state w \<noteq> CONFIGURED \<and> m_state w' = CONFIGURED
        \<longrightarrow> op = Op_FrameMove"
    using step_keeps_unconfigured [of env op w w'] by blast
  have b: "m_state w = CONFIGURING \<or> m_state w = RECONFIGURING \<longrightarrow> m_state (FrameMove w) = CONFIGURED"
    by (auto simp add: FrameMove_def Let_def call_def calls_def)
  have c: "m_state w = RECONFIGURING \<longrightarrow>
        FrameMove w =
          calls (map Renderer_FrameMove (m_renderers w))
            ((calls (map (\<lambda>renderer. Renderer_Configure renderer (m_format w) (m_width w) (m_height w))
                      (m_renderers w))
                (CheckFlush w))\<lparr>m_state := CONFIGURED\<rparr>)"
    by (simp add: FrameMove_def Let_def call_def calls_def)
  show ?thesis
    using a b c by (simp add: Configure_def Let_def Flush_def)
qed

theorem Configure_defers_commit_witness:
  "snd (Configure 0 2 2 2 2 world_ex)
     = world_ex\<lparr>m_format := 0, m_maxWidth := 2, m_maxHeight := 2, m_width := 2, m_height := 2,
                m_state := CONFIGURING\<rparr>
   \<and> m_state (FrameMove (snd (Configure 0 2 2 2 2 world_ex))) = CONFIGURED
   \<and> m_state (snd (Configure 0 4 4 2 2 world_configured)) = RECONFIGURING
   \<and> m_bFlush (snd (Configure 0 4 4 2 2 world_configured))
   \<and> m_state (FrameMove world_reconfiguring) = CONFIGURED
   \<and> trace (FrameMove world_reconfiguring)
       = [Renderer_Flush 0, FlushPools, Renderer_Configure 0 0 2 2, Renderer_FrameMove 0]"
  using Configure_defers_commit [of 0 2 2 2 2 world_ex env_ex Op_FrameMove
      "FrameMove world_ex"]
    Configure_defers_commit [of 0 4 4 2 2 world_configured env_ex Op_FrameMove
      "FrameMove world_configured"]
    Configure_defers_commit [of 0 2 2 2 2 world_reconfiguring env_ex Op_FrameMove
      "FrameMove world_reconfiguring"]
  by (simp add: world_reconfiguring_def world_configured_def world_ex_def CheckFlush_def
      FrameMove_def Configure_def Let_def call_def calls_def)

section \<open>The cached frame\<close>

lemma buffers_only_AddFrame_pools:
  "AddFrame_pools env pools d s width height acc w = Inr (bs, w') \<Longrightarrow> buffers_only w w'"
proof (induction pools arbitrary: acc w)
  case Nil
  then show ?case by simp
next
  case (Cons p pools)
  then show ?case
    by (auto split: if_splits prod.splits option.splits sum.splits
        dest!: buffers_only_GetBuffer buffers_only_CopyFrame
        intro: buffers_only_trans)
qed

lemma memcpy_Inr_iff:
  "memcpy target 0 d 0 n = Inr x \<longleftrightarrow> n \<le> length target \<and> n \<le> length d \<and> x = take n d @ drop n target"
  by (auto simp add: memcpy_def)

lemma length_vector_resize [simp]: "length (vector_resize n xs) = n"
  by (simp add: vector_resize_def)

lemma AddFrame_publish_running:
  "m_speed w \<noteq> 0 \<Longrightarrow>
   AddFrame_publish d s bs w = Inr ((fold Release (m_renderBuffers w) w)\<lparr>m_renderBuffers := bs\<rparr>)"
  using buffers_only_fold_Release [of w "m_renderBuffers w"]
  by (simp add: AddFrame_publish_def AddFrame_release_def Let_def buffers_only_def)

lemma AddFrame_publish_first:
  assumes "AddFrame_publish d s bs w = Inr w'" and "m_speed w = 0"
    and "\<not> m_bHasCachedFrame w" and "s \<noteq> 0"
  shows "unat s \<le> length d \<and> m_cachedFrame w' = take (unat s) d \<and> m_bHasCachedFrame w'"
proof -
  have n: "unat s \<noteq> 0" using assms(4) by (simp add: unat_eq_0)
  then have ne: "vector_resize (unat s) xs \<noteq> []" for xs
    using length_vector_resize [of "unat s" xs] by (metis list.size(3))
  show ?thesis
    using assms(1-3) ne buffers_only_fold_Release [of w "m_renderBuffers w"]
    by (auto simp add: AddFrame_publish_def AddFrame_release_def Let_def buffers_only_def memcpy_Inr_iff call_def
        split: sum.splits)
qed

lemma AddFrame_publish_later:
  assumes "AddFrame_publish d s bs w = Inr w'" and "m_speed w = 0"
    and "m_bHasCachedFrame w" and "m_cachedFrame w \<noteq> []"
  shows "unat s \<le> length (m_cachedFrame w) \<and> unat s \<le> length d
         \<and> m_cachedFrame w' = take (unat s) d @ drop (unat s) (m_cachedFrame w)
         \<and> m_bHasCachedFrame w'"
  using assms buffers_only_fold_Release [of w "m_renderBuffers w"]
  by (auto simp add: AddFrame_publish_def AddFrame_release_def Let_def buffers_only_def memcpy_Inr_iff call_def
      split: sum.splits)

lemma AddFrame_publish_overflow:
  assumes "m_speed w = 0" and "m_bHasCachedFrame w" and "m_cachedFrame w \<noteq> []"
    and "length (m_cachedFrame w) < unat s"
  shows "AddFrame_publish d s bs w = Inl OutOfBounds"
  using assms buffers_only_fold_Release [of w "m_renderBuffers w"]
  by (auto simp add: AddFrame_publish_def AddFrame_release_def Let_def buffers_only_def memcpy_def
      split: sum.splits)

lemma AddFrame_valid:
  assumes "\<not> m_bFlush w" and "m_state w = CONFIGURED" and "s \<noteq> 0"
    and "width = m_width w" and "height = m_height w" and "width \<noteq> 0" and "height \<noteq> 0"
  shows "AddFrame env (Some d) s width height orientation w =
           (case AddFrame_pools env (GetBufferPools w) d s width height [] w of
              Inl e \<Rightarrow> Inl e
            | Inr (renderBuffers, w1) \<Rightarrow> AddFrame_publish d s renderBuffers w1)"
  using assms by (auto simp add: AddFrame_def split: sum.splits)

lemma AddFrame_cases:
  assumes "AddFrame env data s width height orientation w = Inr w'"
  shows "w' = w
    \<or> w' = snd (Configure (m_format w) width height (m_maxWidth w) (m_maxHeight w) w)
    \<or> (\<exists>d bs w1. data = Some d \<and> \<not> m_bFlush w \<and> m_state w = CONFIGURED \<and> s \<noteq> 0
          \<and> width = m_width w \<and> height = m_height w \<and> width \<noteq> 0 \<and> height \<noteq> 0
          \<and> AddFrame_pools env (GetBufferPools w) d s width height [] w = Inr (bs, w1)
          \<and> buffers_only w w1
          \<and> AddFrame_publish d s bs w1 = Inr w')"
  using assms
  by (auto simp add: AddFrame_def split: if_splits sum.splits dest: buffers_only_AddFrame_pools)

lemma AddFrame_publish_cases:
  assumes "AddFrame_publish d s bs w = Inr w'"
  shows "(m_cachedFrame w' = m_cachedFrame w \<and> m_bHasCachedFrame w' = m_bHasCachedFrame w)
    \<or> (m_speed w = 0 \<and> m_bHasCachedFrame w' \<and> m_cachedFrame w' \<noteq> [])
    \<or> (m_speed w = 0 \<and> m_bHasCachedFrame w \<and> m_cachedFrame w = [] \<and> m_bHasCachedFrame w'
         \<and> m_cachedFrame w' = [])
    \<or> (m_speed w = 0 \<and> s = 0 \<and> m_cachedFrame w' = [] \<and> m_bHasCachedFrame w')"
proof (cases "m_speed w = 0")
  case False
  with assms show ?thesis
    using buffers_only_fold_Release [of w "m_renderBuffers w"]
    by (auto simp add: AddFrame_publish_running buffers_only_def)
next
  case paused: True
  show ?thesis
  proof (cases "m_bHasCachedFrame w")
    case True
    show ?thesis
    proof (cases "m_cachedFrame w = []")
      case True
      with assms paused \<open>m_bHasCachedFrame w\<close> show ?thesis
        using buffers_only_fold_Release [of w "m_renderBuffers w"]
        by (auto simp add: AddFrame_publish_def AddFrame_release_def Let_def buffers_only_def)
    next
      case False
      with AddFrame_publish_later [OF assms paused True] paused show ?thesis
        by auto
    qed
  next
    case False
    show ?thesis
    proof (cases "s = 0")
      case True
      with assms paused False show ?thesis
        using buffers_only_fold_Release [of w "m_renderBuffers w"]
        by (auto simp add: AddFrame_publish_def AddFrame_release_def Let_def buffers_only_def vector_resize_def)
    next
      case nz: False
      have "unat s \<noteq> 0" using nz by (simp add: unat_eq_0)
      with AddFrame_publish_first [OF assms paused False nz] paused show ?thesis
        by auto
    qed
  qed
qed


text \<open>
  C9. For a valid frame of the configured dimensions arriving while paused: if no frame
  is cached (\<open>m_bHasCachedFrame\<close> is false), the cached frame gets the length of the
  \<open>size\<close> argument and holds the frame's first \<open>size\<close> bytes. If a frame is cached,
  the buffer is not resized: a successful \<open>AddFrame\<close> leaves its length as it was, has
  overwritten its first \<open>size\<close> bytes, and \<open>size\<close> did not exceed that length. When
  \<open>size\<close> exceeds the length, the copy leaves the buffer and \<open>AddFrame\<close> fails.
\<close>

theorem cached_frame_sized_once:
  assumes "\<not> m_bFlush w" and "m_state w = CONFIGURED" and "size' \<noteq> 0"
    and "width = m_width w" and "height = m_height w" and "width \<noteq> 0" and "height \<noteq> 0"
    and "m_speed w = 0"
  shows "(\<not> m_bHasCachedFrame w
            \<and> AddFrame env (Some d) size' width height orientationDegCCW w = Inr w'
          \<longrightarrow> m_bHasCachedFrame w' \<and> length (m_cachedFrame w') = unat size'
              \<and> m_cachedFrame w' = take (unat size') d)
       \<and> (m_bHasCachedFrame w \<and> m_cachedFrame w \<noteq> []
            \<and> AddFrame env (Some d) size' width height orientationDegCCW w = Inr w'
          \<longrightarrow> m_bHasCachedFrame w' \<and> length (m_cachedFrame w') = length (m_cachedFrame w)
              \<and> unat size' \<le> length (m_cachedFrame w)
              \<and> m_cachedFrame w' = take (unat size') d @ drop (unat size') (m_cachedFrame w))
       \<and> (m_bHasCachedFrame w \<and> m_cachedFrame w \<noteq> [] \<and> length (m_cachedFrame w) < unat size'
          \<longrightarrow> (\<exists>e. AddFrame env (Some d) size' width height orientationDegCCW w = Inl e)
              \<and> (\<forall>bs w1. AddFrame_pools env (GetBufferPools w) d size' width height [] w
                           = Inr (bs, w1)
                    \<longrightarrow> AddFrame env (Some d) size' width height orientationDegCCW w
                           = Inl OutOfBounds))"
proof -
  note eq = AddFrame_valid [OF assms(1-7), of env d orientationDegCCW]
  have first: "m_bHasCachedFrame w' \<and> length (m_cachedFrame w') = unat size'
              \<and> m_cachedFrame w' = take (unat size') d"
    if "\<not> m_bHasCachedFrame w"
      and "AddFrame env (Some d) size' width height orientationDegCCW w = Inr w'"
  proof -
    from that(2) eq obtain bs w1 where
      p: "AddFrame_pools env (GetBufferPools w) d size' width height [] w = Inr (bs, w1)"
      and q: "AddFrame_publish d size' bs w1 = Inr w'"
      by (auto split: sum.splits)
    from buffers_only_AddFrame_pools [OF p] assms(8) that(1)
    have "m_speed w1 = 0" "\<not> m_bHasCachedFrame w1" by (simp_all add: buffers_only_def)
    from AddFrame_publish_first [OF q this assms(3)] show ?thesis by simp
  qed
  have later: "m_bHasCachedFrame w' \<and> length (m_cachedFrame w') = length (m_cachedFrame w)
              \<and> unat size' \<le> length (m_cachedFrame w)
              \<and> m_cachedFrame w' = take (unat size') d @ drop (unat size') (m_cachedFrame w)"
    if "m_bHasCachedFrame w" and "m_cachedFrame w \<noteq> []"
      and "AddFrame env (Some d) size' width height orientationDegCCW w = Inr w'"
  proof -
    from that(3) eq obtain bs w1 where
      p: "AddFrame_pools env (GetBufferPools w) d size' width height [] w = Inr (bs, w1)"
      and q: "AddFrame_publish d size' bs w1 = Inr w'"
      by (auto split: sum.splits)
    from buffers_only_AddFrame_pools [OF p] assms(8) that(1,2)
    have "m_speed w1 = 0" "m_bHasCachedFrame w1" "m_cachedFrame w1 \<noteq> []"
      and c: "m_cachedFrame w1 = m_cachedFrame w"
      by (simp_all add: buffers_only_def)
    from AddFrame_publish_later [OF q this(1-3)] c show ?thesis by simp
  qed
  have over: "AddFrame env (Some d) size' width height orientationDegCCW w = Inl OutOfBounds"
    if "m_bHasCachedFrame w" and "m_cachedFrame w \<noteq> []" and "length (m_cachedFrame w) < unat size'"
      and p: "AddFrame_pools env (GetBufferPools w) d size' width height [] w = Inr (bs, w1)"
    for bs w1
  proof -
    from buffers_only_AddFrame_pools [OF p] assms(8) that(1-3)
    have "m_speed w1 = 0" "m_bHasCachedFrame w1" "m_cachedFrame w1 \<noteq> []"
      "length (m_cachedFrame w1) < unat size'"
      by (simp_all add: buffers_only_def)
    from AddFrame_publish_overflow [OF this] eq p show ?thesis by simp
  qed
  have fails: "\<exists>e. AddFrame env (Some d) size' width height orientationDegCCW w = Inl e"
    if "m_bHasCachedFrame w" and "m_cachedFrame w \<noteq> []" and "length (m_cachedFrame w) < unat size'"
  proof (cases "AddFrame_pools env (GetBufferPools w) d size' width height [] w")
    case (Inl e)
    with eq show ?thesis by simp
  next
    case (Inr r)
    with over [OF that, of "fst r" "snd r"] show ?thesis by simp
  qed
  from first later over fails show ?thesis by blast
qed


lemma AddFrame_first_ex:
  "AddFrame env_hidden (Some frame_ex) 16 2 2 0 world_paused = Inr world_cached"
  apply (simp add: AddFrame_def env_hidden_def env_ex_def world_paused_def
       world_configured_def world_ex_def)
  apply (simp add: AddFrame_publish_def AddFrame_release_def Let_def)
  apply (simp add: memcpy_def vector_resize_def call_def frame_ex_def)
  apply (simp add: world_cached_def world_paused_def world_configured_def world_ex_def frame_ex_def)
  done


lemma AddFrame_later_ex:
  "AddFrame env_hidden (Some [21, 22, 23, 24, 25, 26, 27, 28]) 8 2 2 0 world_cached
     = Inr world_recached"
  apply (simp add: AddFrame_def env_hidden_def env_ex_def world_cached_def world_paused_def
       world_configured_def world_ex_def world_recached_def)
  apply (simp add: AddFrame_publish_def AddFrame_release_def Let_def)
  apply (simp add: memcpy_def call_def frame_ex_def)
  done

lemma AddFrame_overflow_ex:
  "AddFrame env_hidden (Some (frame_ex @ frame_ex)) 32 2 2 0 world_cached = Inl OutOfBounds"
  apply (simp add: AddFrame_def env_hidden_def env_ex_def world_cached_def world_paused_def
       world_configured_def world_ex_def)
  apply (simp add: AddFrame_publish_def AddFrame_release_def Let_def)
  apply (simp add: memcpy_def call_def frame_ex_def)
  done

theorem cached_frame_sized_once_witness:
  "AddFrame env_hidden (Some frame_ex) 16 2 2 0 world_paused = Inr world_cached
   \<and> \<not> m_bHasCachedFrame world_paused
   \<and> length (m_cachedFrame world_cached) = 16
   \<and> AddFrame env_hidden (Some [21, 22, 23, 24, 25, 26, 27, 28]) 8 2 2 0 world_cached
       = Inr world_recached
   \<and> length (m_cachedFrame world_recached) = 16
   \<and> AddFrame env_hidden (Some (frame_ex @ frame_ex)) 32 2 2 0 world_cached = Inl OutOfBounds"
proof -
  have c: "\<not> m_bFlush world_cached" "m_state world_cached = CONFIGURED"
    "(16::64 word) \<noteq> 0" "(2::32 word) = m_width world_cached"
    "(2::32 word) = m_height world_cached" "(2::32 word) \<noteq> 0" "(2::32 word) \<noteq> 0"
    "m_speed world_cached = 0"
    and c': "m_bHasCachedFrame world_cached" "m_cachedFrame world_cached \<noteq> []"
      "length (m_cachedFrame world_cached) = 16"
    by (simp_all add: world_cached_def world_paused_def world_configured_def world_ex_def
        frame_ex_def)
  have p: "\<not> m_bFlush world_paused" "m_state world_paused = CONFIGURED"
    "(16::64 word) \<noteq> 0" "(2::32 word) = m_width world_paused"
    "(2::32 word) = m_height world_paused" "(2::32 word) \<noteq> 0" "(2::32 word) \<noteq> 0"
    "m_speed world_paused = 0"
    and p': "\<not> m_bHasCachedFrame world_paused"
    by (simp_all add: world_paused_def world_configured_def world_ex_def)
  have first: "length (m_cachedFrame world_cached) = unat (16::64 word)"
    using cached_frame_sized_once [OF p, of env_hidden frame_ex 0 world_cached]
      AddFrame_first_ex p' by blast
  have later: "length (m_cachedFrame world_recached) = length (m_cachedFrame world_cached)"
    using cached_frame_sized_once [OF c(1,2) _ c(4,5,6,7,8),
        of 8 env_hidden "[21, 22, 23, 24, 25, 26, 27, 28]" 0 world_recached]
      AddFrame_later_ex c' by simp
  have over: "\<exists>e. AddFrame env_hidden (Some (frame_ex @ frame_ex)) 32 2 2 0 world_cached = Inl e"
    using cached_frame_sized_once [OF c(1,2) _ c(4,5,6,7,8),
        of 32 env_hidden "frame_ex @ frame_ex" 0 world_cached] c'
    by simp
  from first later over show ?thesis
    by (simp add: AddFrame_first_ex AddFrame_later_ex AddFrame_overflow_ex p' c')
qed

subsection \<open>Population and clearing\<close>

lemma CopyFrame_bulk_ex:
  "CopyFrame env_ex 0 0 frame_ex 16 2 2
     (Acquire 0 (world_cached\<lparr>m_cachedFrame := [], pool_free := (pool_free world_cached)(0 := [1])\<rparr>))
   = Inr (world_seeded\<lparr>m_renderBuffers := [], m_cachedFrame := []\<rparr>)"
  apply (simp add: CopyFrame_def CopyFrame_body_def Acquire_def world_cached_def world_paused_def
      world_configured_def world_ex_def buffer_ex_def Let_def)
  apply (simp add: memcpy_buffer_def memcpy_def frame_ex_def call_def)
  apply (simp add: world_seeded_def world_cached_def world_paused_def
      world_configured_def world_ex_def buffer_ex_def frame_ex_def)
  done

lemma CreateRenderBuffer_ex:
  "CreateRenderBuffer env_ex 0 world_cached = Inr world_seeded"
proof -
  have a: "\<not> m_bFlush world_cached" "m_state world_cached = CONFIGURED"
    "\<not> HasRenderBuffer 0 world_cached" "m_bHasCachedFrame world_cached"
    "m_cachedFrame world_cached = frame_ex" "pool_free world_cached 0 = [0, 1]"
    "m_format world_cached = 0" "m_width world_cached = 2" "m_height world_cached = 2"
    by (simp_all add: HasRenderBuffer_def world_cached_def world_paused_def
        world_configured_def world_ex_def)
  have l: "frame_ex \<noteq> []" "of_nat (length frame_ex) = (16 :: 64 word)"
    by (simp_all add: frame_ex_def)
  show ?thesis
    apply (simp add: CreateRenderBuffer_def a l Let_def GetBuffer_def)
    apply (simp add: Acquire_def a CopyFrame_bulk_ex [unfolded Acquire_def, simplified])
    apply (simp add: world_seeded_def a)
    done
qed

lemma Configure_cache [simp]:
  "m_cachedFrame (snd (Configure f nw nh mw mh w)) = m_cachedFrame w"
  "m_bHasCachedFrame (snd (Configure f nw nh mw mh w)) = m_bHasCachedFrame w"
  by (simp_all add: Configure_def Let_def Flush_def)

lemma Deinitialize_cache [simp]:
  "m_cachedFrame (Deinitialize w) = m_cachedFrame w"
  "m_bHasCachedFrame (Deinitialize w) = m_bHasCachedFrame w"
  using buffers_only_fold_Release [of "calls (map Call_sws_freeContext (List.map_filter snd (m_scalers w))) w\<lparr>m_scalers := []\<rparr>" "m_renderBuffers w"]
  by (simp_all add: Deinitialize_def Let_def calls_def buffers_only_def)

lemma CheckFlush_cache:
  "m_bFlush w \<Longrightarrow> m_cachedFrame (CheckFlush w) = [] \<and> \<not> m_bHasCachedFrame (CheckFlush w)"
  "\<not> m_bFlush w \<Longrightarrow> CheckFlush w = w"
  by (simp_all add: CheckFlush_def Let_def call_def calls_def)

lemma FrameMove_cache [simp]:
  "m_cachedFrame (FrameMove w) = m_cachedFrame (CheckFlush w)"
  "m_bHasCachedFrame (FrameMove w) = m_bHasCachedFrame (CheckFlush w)"
  by (simp_all add: FrameMove_def Let_def call_def calls_def)

lemma AddFrame_cache_cases:
  assumes "AddFrame env data s width height orientation w = Inr w'"
  shows "(m_cachedFrame w' = m_cachedFrame w \<and> m_bHasCachedFrame w' = m_bHasCachedFrame w)
    \<or> (m_speed w = 0 \<and> m_bHasCachedFrame w' \<and> m_cachedFrame w' \<noteq> []
        \<and> (\<exists>d. data = Some d) \<and> s \<noteq> 0 \<and> width = m_width w \<and> height = m_height w
        \<and> width \<noteq> 0 \<and> height \<noteq> 0 \<and> \<not> m_bFlush w \<and> m_state w = CONFIGURED)
    \<or> (m_bHasCachedFrame w \<and> m_cachedFrame w = [] \<and> m_bHasCachedFrame w'
         \<and> m_cachedFrame w' = [])"
proof -
  from AddFrame_cases [OF assms] consider
    "w' = w" | "w' = snd (Configure (m_format w) width height (m_maxWidth w) (m_maxHeight w) w)"
    | d bs w1 where "data = Some d" "\<not> m_bFlush w" "m_state w = CONFIGURED" "s \<noteq> 0"
          "width = m_width w" "height = m_height w" "width \<noteq> 0" "height \<noteq> 0"
          "buffers_only w w1" "AddFrame_publish d s bs w1 = Inr w'"
    by blast
  then show ?thesis
  proof cases
    case 1
    then show ?thesis by simp
  next
    case 2
    then show ?thesis by simp
  next
    case 3
    from AddFrame_publish_cases [OF 3(10)] 3(1-9) show ?thesis
      by (auto simp add: buffers_only_def)
  qed
qed

lemma step_cache_cases:
  assumes "step env op w = Inr w'"
  shows "(m_cachedFrame w' = m_cachedFrame w \<and> m_bHasCachedFrame w' = m_bHasCachedFrame w)
    \<or> (m_cachedFrame w' = [] \<and> \<not> m_bHasCachedFrame w')
    \<or> (m_speed w = 0 \<and> m_bHasCachedFrame w' \<and> m_cachedFrame w' \<noteq> []
        \<and> (\<exists>d s orientation. op = Op_AddFrame (Some d) s (m_width w) (m_height w) orientation
              \<and> s \<noteq> 0)
        \<and> m_width w \<noteq> 0 \<and> m_height w \<noteq> 0 \<and> \<not> m_bFlush w \<and> m_state w = CONFIGURED)
    \<or> (m_bHasCachedFrame w \<and> m_cachedFrame w = [] \<and> m_bHasCachedFrame w'
         \<and> m_cachedFrame w' = [])"
proof (cases op)
  case (Op_Configure f nw nh mw mh)
  with assms show ?thesis by auto
next
  case (Op_AddFrame d s wd h o')
  with assms AddFrame_cache_cases [of env d s wd h o' w w'] show ?thesis by auto
next
  case Op_FrameMove
  with assms CheckFlush_cache [of w] show ?thesis by (cases "m_bFlush w") auto
next
  case (Op_RenderWindow c)
  with assms config_same_RenderWindow [of env c w w'] show ?thesis
    by (simp add: config_same_def)
next
  case (Op_RenderControl c a rs)
  with assms config_same_RenderControl [of env c a rs w w'] show ?thesis
    by (simp add: config_same_def)
qed (use assms in \<open>auto simp add: SetSpeed_def Flush_def TriggerUpdateResolution_def
      ClearBackground_def call_def\<close>)

lemma AddFrame_paused_exact:
  assumes "\<not> m_bFlush w" and "m_state w = CONFIGURED" and "s \<noteq> 0"
    and "width = m_width w" and "height = m_height w" and "width \<noteq> 0" and "height \<noteq> 0"
    and "m_speed w = 0"
    and "AddFrame env (Some d) s width height orientation w = Inr w'"
    and "\<not> m_bHasCachedFrame w \<or> (m_cachedFrame w \<noteq> [] \<and> length (m_cachedFrame w) = unat s)"
  shows "m_bHasCachedFrame w' \<and> m_cachedFrame w' = take (unat s) d \<and> unat s \<le> length d"
proof -
  from assms(9) AddFrame_valid [OF assms(1-7), of env d orientation] obtain bs w1 where
    p: "AddFrame_pools env (GetBufferPools w) d s width height [] w = Inr (bs, w1)"
    and q: "AddFrame_publish d s bs w1 = Inr w'"
    by (auto split: sum.splits)
  note b = buffers_only_AddFrame_pools [OF p]
  from b assms(8) have sp: "m_speed w1 = 0" by (simp add: buffers_only_def)
  show ?thesis
  proof (cases "m_bHasCachedFrame w")
    case False
    with b have "\<not> m_bHasCachedFrame w1" by (simp add: buffers_only_def)
    from AddFrame_publish_first [OF q sp this assms(3)] show ?thesis by simp
  next
    case True
    with assms(10) b have "m_bHasCachedFrame w1" "m_cachedFrame w1 \<noteq> []"
      "length (m_cachedFrame w1) = unat s"
      by (simp_all add: buffers_only_def)
    with AddFrame_publish_later [OF q sp this(1,2)] show ?thesis by simp
  qed
qed


text \<open>
  C6, as the code has it. An operation of the interface gives the cached frame a new
  non-empty content only if it is an \<open>AddFrame\<close> of a valid frame of the configured
  dimensions, arriving with no flush pending, in state \<open>CONFIGURED\<close> and at speed 0.
  After such an \<open>AddFrame\<close>, when no frame was cached or the cached one had the length
  of \<open>size\<close>, the cached frame is the frame's first \<open>size\<close> bytes. Executing a
  pending flush (\<open>CheckFlush\<close>, and so \<open>FrameMove\<close>) empties it and resets
  \<open>m_bHasCachedFrame\<close>. \<open>CreateRenderBuffer\<close> leaves the cached frame and
  \<open>m_bHasCachedFrame\<close> as they were, also when it creates a buffer from the frame.
  Every operation keeps: if \<open>m_bHasCachedFrame\<close> then the cached frame is not empty.
\<close>

theorem cached_frame_lifecycle:
  "(step env op w = Inr w' \<and> m_cachedFrame w' \<noteq> m_cachedFrame w \<and> m_cachedFrame w' \<noteq> []
      \<longrightarrow> m_speed w = 0 \<and> \<not> m_bFlush w \<and> m_state w = CONFIGURED
          \<and> (\<exists>d s orientation. op = Op_AddFrame (Some d) s (m_width w) (m_height w) orientation
                \<and> s \<noteq> 0 \<and> m_width w \<noteq> 0 \<and> m_height w \<noteq> 0))
   \<and> (\<not> m_bFlush w \<and> m_state w = CONFIGURED \<and> size' \<noteq> 0 \<and> width = m_width w
        \<and> height = m_height w \<and> width \<noteq> 0 \<and> height \<noteq> 0 \<and> m_speed w = 0
        \<and> AddFrame env (Some d) size' width height orientationDegCCW w = Inr w1
        \<and> (\<not> m_bHasCachedFrame w
            \<or> (m_cachedFrame w \<noteq> [] \<and> length (m_cachedFrame w) = unat size'))
      \<longrightarrow> m_bHasCachedFrame w1 \<and> m_cachedFrame w1 = take (unat size') d
          \<and> unat size' \<le> length d)
   \<and> (m_bFlush w
      \<longrightarrow> m_cachedFrame (CheckFlush w) = [] \<and> \<not> m_bHasCachedFrame (CheckFlush w)
          \<and> m_cachedFrame (FrameMove w) = [] \<and> \<not> m_bHasCachedFrame (FrameMove w))
   \<and> (CreateRenderBuffer env bufferPool w = Inr w2
      \<longrightarrow> m_cachedFrame w2 = m_cachedFrame w \<and> m_bHasCachedFrame w2 = m_bHasCachedFrame w)
   \<and> ((m_bHasCachedFrame w \<longrightarrow> m_cachedFrame w \<noteq> []) \<and> step env op w = Inr w'
      \<longrightarrow> (m_bHasCachedFrame w' \<longrightarrow> m_cachedFrame w' \<noteq> []))"
proof -
  have a: "step env op w = Inr w' \<and> m_cachedFrame w' \<noteq> m_cachedFrame w \<and> m_cachedFrame w' \<noteq> []
      \<longrightarrow> m_speed w = 0 \<and> \<not> m_bFlush w \<and> m_state w = CONFIGURED
          \<and> (\<exists>d s orientation. op = Op_AddFrame (Some d) s (m_width w) (m_height w) orientation
                \<and> s \<noteq> 0 \<and> m_width w \<noteq> 0 \<and> m_height w \<noteq> 0)"
    using step_cache_cases [of env op w w'] by auto
  have b: "\<not> m_bFlush w \<and> m_state w = CONFIGURED \<and> size' \<noteq> 0 \<and> width = m_width w
        \<and> height = m_height w \<and> width \<noteq> 0 \<and> height \<noteq> 0 \<and> m_speed w = 0
        \<and> AddFrame env (Some d) size' width height orientationDegCCW w = Inr w1
        \<and> (\<not> m_bHasCachedFrame w
            \<or> (m_cachedFrame w \<noteq> [] \<and> length (m_cachedFrame w) = unat size'))
      \<longrightarrow> m_bHasCachedFrame w1 \<and> m_cachedFrame w1 = take (unat size') d
          \<and> unat size' \<le> length d"
    using AddFrame_paused_exact [of w size' width height env d orientationDegCCW w1] by blast
  have c: "m_bFlush w
      \<longrightarrow> m_cachedFrame (CheckFlush w) = [] \<and> \<not> m_bHasCachedFrame (CheckFlush w)
          \<and> m_cachedFrame (FrameMove w) = [] \<and> \<not> m_bHasCachedFrame (FrameMove w)"
    using CheckFlush_cache(1) [of w] by simp
  have d: "CreateRenderBuffer env bufferPool w = Inr w2
      \<longrightarrow> m_cachedFrame w2 = m_cachedFrame w \<and> m_bHasCachedFrame w2 = m_bHasCachedFrame w"
    using config_same_CreateRenderBuffer [of env bufferPool w w2] by (simp add: config_same_def)
  have e: "(m_bHasCachedFrame w \<longrightarrow> m_cachedFrame w \<noteq> []) \<and> step env op w = Inr w'
      \<longrightarrow> (m_bHasCachedFrame w' \<longrightarrow> m_cachedFrame w' \<noteq> [])"
    using step_cache_cases [of env op w w'] by auto
  from a b c d e show ?thesis by blast
qed



theorem cached_frame_lifecycle_witness:
  "step env_hidden (Op_AddFrame (Some frame_ex) 16 2 2 0) world_paused = Inr world_cached
   \<and> m_speed world_paused = 0
   \<and> m_cachedFrame world_paused = [] \<and> m_cachedFrame world_cached = take 16 frame_ex
   \<and> m_bFlush (Flush world_cached)
   \<and> m_cachedFrame (FrameMove (Flush world_cached)) = []
   \<and> CreateRenderBuffer env_ex 0 world_cached = Inr world_seeded
   \<and> m_cachedFrame world_seeded = m_cachedFrame world_cached"
proof -
  have p: "\<not> m_bFlush world_paused" "m_state world_paused = CONFIGURED"
    "m_width world_paused = 2" "m_height world_paused = 2"
    "m_speed world_paused = 0" "\<not> m_bHasCachedFrame world_paused"
    "m_cachedFrame world_paused = []"
    by (simp_all add: world_paused_def world_configured_def world_ex_def)
  have s: "step env_hidden (Op_AddFrame (Some frame_ex) 16 2 2 0) world_paused = Inr world_cached"
    by (simp add: AddFrame_first_ex)
  have f: "m_bFlush (Flush world_cached)" by (simp add: Flush_def)
  note t1 = cached_frame_lifecycle [of env_hidden "Op_AddFrame (Some frame_ex) 16 2 2 0"
      world_paused world_cached 16 2 2 frame_ex 0 world_cached 0 world_seeded]
  note t2 = cached_frame_lifecycle [of env_ex Op_Initialize
      "Flush world_cached" "Flush world_cached" 16 2 2 frame_ex 0 world_cached 0 world_seeded]
  note t3 = cached_frame_lifecycle [of env_ex Op_Initialize
      world_cached world_cached 16 2 2 frame_ex 0 world_cached 0 world_seeded]
  have a: "m_cachedFrame world_cached = take (unat (16::64 word)) frame_ex"
    using t1 p AddFrame_first_ex by simp
  have b: "m_cachedFrame (FrameMove (Flush world_cached)) = []"
    using t2 f by blast
  have c: "m_cachedFrame world_seeded = m_cachedFrame world_cached"
    using t3 CreateRenderBuffer_ex by blast
  from a b c s p f show ?thesis by (simp add: CreateRenderBuffer_ex)
qed

text \<open>
  C6 as stated fails: \<open>CreateRenderBuffer\<close> creates buffer 0 from the cached frame
  (the buffer holds the frame's bytes and joins the render buffer set), and the cached
  frame is still there afterwards.
\<close>

theorem CreateRenderBuffer_keeps_cached_frame:
  "CreateRenderBuffer env_ex 0 world_cached = Inr world_seeded
   \<and> m_cachedFrame world_cached = frame_ex
   \<and> m_renderBuffers world_cached = [] \<and> m_renderBuffers world_seeded = [0]
   \<and> memory (buffer_of world_seeded 0) = Some frame_ex
   \<and> m_cachedFrame world_seeded = frame_ex \<and> m_cachedFrame world_seeded \<noteq> []
   \<and> m_bHasCachedFrame world_seeded"
  by (simp add: CreateRenderBuffer_ex)
    (simp add: world_seeded_def world_cached_def world_paused_def world_configured_def
      world_ex_def frame_ex_def)

section \<open>Pixel conversion\<close>


lemma scalers_lookup_update [simp]: "scalers_lookup (scalers_update k v xs) k = v"
  by (induction k v xs rule: scalers_update.induct) (simp_all add: scalers_lookup_def)

lemma ucast_ex: "(ucast ((32 :: 64 word) div ucast (2 :: 32 word)) :: 32 word) = 16"
  "(ucast ((16 :: 64 word) div ucast (2 :: 32 word)) :: 32 word) = 8"
  by simp_all











section \<open>The render buffer set\<close>

lemma refs_same_refl [simp]: "refs_same w w"
  by (simp add: refs_same_def)

lemma refs_same_trans: "refs_same w w1 \<Longrightarrow> refs_same w1 w2 \<Longrightarrow> refs_same w w2"
  by (simp add: refs_same_def)

lemma refs_same_memcpy_buffer:
  "memcpy_buffer b toff source soff n w = Inr w' \<Longrightarrow> refs_same w w'"
  by (auto simp add: memcpy_buffer_def refs_same_def call_def split: option.splits sum.splits if_splits)

lemma refs_same_CopyFrame_rows:
  "CopyFrame_rows b ts source ss wb rows w = Inr w' \<Longrightarrow> refs_same w w'"
proof (induction rows arbitrary: w)
  case Nil
  then show ?case by simp
next
  case (Cons i rows)
  then show ?case
    by (auto split: sum.splits dest!: refs_same_memcpy_buffer intro: refs_same_trans)
qed

lemma refs_same_CopyFrame_body:
  "CopyFrame_body env b format source size' width height target w = Inr w' \<Longrightarrow> refs_same w w'"
  by (auto simp add: CopyFrame_body_def Let_def call_def
      split: if_splits option.splits
      dest!: refs_same_memcpy_buffer refs_same_CopyFrame_rows)
    (auto simp add: refs_same_def split: if_splits)

lemma refs_same_CopyFrame:
  "CopyFrame env b format source size' width height w = Inr w' \<Longrightarrow> refs_same w w'"
  by (auto simp add: CopyFrame_def split: option.splits sum.splits
      dest!: refs_same_CopyFrame_body)
    (auto simp add: refs_same_def call_def)

lemma pools_wf_refs_same: "refs_same w w' \<Longrightarrow> pools_wf w \<Longrightarrow> pools_wf w'"
  by (simp add: pools_wf_def refs_same_def)





lemma GetBuffer_None: "GetBuffer pool s w = (None, w') \<Longrightarrow> w' = w"
  by (auto simp add: GetBuffer_def split: list.splits)

lemma GetBuffer_Some:
  assumes "GetBuffer pool s w = (Some b, w')" and "pools_wf w"
  shows "pools_wf w' \<and> refs (buffer_of w b) = 0 \<and> refs (buffer_of w' b) = 1
         \<and> GetPool (buffer_of w b) = pool \<and> IsLoaded (buffer_of w' b) = IsLoaded (buffer_of w b)
         \<and> (\<forall>b'. b' \<noteq> b \<longrightarrow> buffer_of w' b' = buffer_of w b')"
proof -
  from assms(1) obtain rest where f: "pool_free w pool = b # rest"
    and w': "w' = Acquire b (w\<lparr>pool_free := (pool_free w)(pool := rest)\<rparr>)"
    by (auto simp add: GetBuffer_def split: list.splits)
  from assms(2) f have b: "refs (buffer_of w b) = 0" "GetPool (buffer_of w b) = pool"
    "b \<notin> set rest" "distinct rest"
    unfolding pools_wf_def by (metis list.set_intros(1), metis list.set_intros(1),
        metis distinct.simps(2), metis distinct.simps(2))
  have "pools_wf w'"
    unfolding pools_wf_def
  proof (intro allI conjI ballI)
    fix p
    show "distinct (pool_free w' p)"
      using assms(2) b(4) by (simp add: w' Acquire_def pools_wf_def)
  next
    fix p x
    assume x: "x \<in> set (pool_free w' p)"
    then have xin: "x \<in> set (pool_free w p)"
      using f by (auto simp add: w' Acquire_def split: if_splits)
    with assms(2) have xr: "refs (buffer_of w x) = 0" "GetPool (buffer_of w x) = p"
      by (simp_all add: pools_wf_def)
    have "x \<noteq> b"
    proof
      assume "x = b"
      with xr b(2) have "p = pool" by simp
      with x \<open>x = b\<close> b(3) show False by (simp add: w' Acquire_def)
    qed
    with xr show "refs (buffer_of w' x) = 0" "GetPool (buffer_of w' x) = p"
      by (simp_all add: w' Acquire_def)
  qed
  with b show ?thesis by (simp add: w' Acquire_def)
qed




lemma HasRenderBuffer_iff:
  "HasRenderBuffer pool w \<longleftrightarrow> (\<exists>b \<in> set (m_renderBuffers w). GetPool (buffer_of w b) = pool)"
proof -
  have "HasRenderBuffer pool w \<longleftrightarrow>
      find (\<lambda>renderBuffer. GetPool (buffer_of w renderBuffer) = pool) (m_renderBuffers w) \<noteq> None"
    by (simp add: HasRenderBuffer_def split: option.splits)
  also have "\<dots> \<longleftrightarrow> (\<exists>b \<in> set (m_renderBuffers w). GetPool (buffer_of w b) = pool)"
    by (auto simp add: find_None_iff)
  finally show ?thesis .
qed



lemma CreateRenderBuffer_cases:
  assumes "CreateRenderBuffer env pool w = Inr w'"
  shows "w' = w
    \<or> (\<exists>b w1 w2. \<not> m_bFlush w \<and> m_state w = CONFIGURED \<and> \<not> HasRenderBuffer pool w
          \<and> m_bHasCachedFrame w \<and> m_cachedFrame w \<noteq> []
          \<and> GetBuffer pool (of_nat (length (m_cachedFrame w))) (w\<lparr>m_cachedFrame := []\<rparr>) = (Some b, w1)
          \<and> CopyFrame env b (m_format w) (m_cachedFrame w) (of_nat (length (m_cachedFrame w)))
                (m_width w) (m_height w) w1 = Inr w2
          \<and> w' = w2\<lparr>m_renderBuffers := m_renderBuffers w @ [b], m_cachedFrame := m_cachedFrame w\<rparr>)"
proof (cases "m_bFlush w \<or> m_state w \<noteq> CONFIGURED \<or> HasRenderBuffer pool w
    \<or> \<not> m_bHasCachedFrame w \<or> m_cachedFrame w = []")
  case True
  with assms show ?thesis by (auto simp add: CreateRenderBuffer_def Let_def split: if_splits)
next
  case False
  show ?thesis
  proof (cases "GetBuffer pool (of_nat (length (m_cachedFrame w))) (w\<lparr>m_cachedFrame := []\<rparr>)")
    case (Pair r w1)
    show ?thesis
    proof (cases r)
      case None
      with Pair GetBuffer_None have "w1 = w\<lparr>m_cachedFrame := []\<rparr>" by blast
      with assms False Pair None show ?thesis
        by (simp add: CreateRenderBuffer_def Let_def)
    next
      case (Some b)
      from buffers_only_GetBuffer [of pool _ "w\<lparr>m_cachedFrame := []\<rparr>" r w1] Pair
      have bo: "buffers_only (w\<lparr>m_cachedFrame := []\<rparr>) w1" by simp
      then have f: "m_format w1 = m_format w" "m_width w1 = m_width w" "m_height w1 = m_height w"
        by (simp_all add: buffers_only_def)
      from assms False Pair Some f obtain w2 where
        c: "CopyFrame env b (m_format w) (m_cachedFrame w) (of_nat (length (m_cachedFrame w)))
                (m_width w) (m_height w) w1 = Inr w2"
        and w': "w' = w2\<lparr>m_renderBuffers := m_renderBuffers w2 @ [b], m_cachedFrame := m_cachedFrame w\<rparr>"
        by (auto simp add: CreateRenderBuffer_def Let_def split: sum.splits)
      from bo buffers_only_CopyFrame [OF c] have "m_renderBuffers w2 = m_renderBuffers w"
        by (simp add: buffers_only_def)
      with False Pair Some c w' show ?thesis by auto
    qed
  qed
qed

lemma pools_wf_cong:
  "pool_free w' = pool_free w \<Longrightarrow> buffer_of w' = buffer_of w \<Longrightarrow> pools_wf w' = pools_wf w"
  by (simp add: pools_wf_def)

lemma CreateRenderBuffer_inv:
  assumes "CreateRenderBuffer env pool w = Inr w'" and "pools_wf w" and "buffer_set_inv w"
  shows "buffer_set_inv w' \<and> pools_wf w'"
proof -
  from CreateRenderBuffer_cases [OF assms(1)] consider "w' = w"
    | b w1 w2 where "\<not> HasRenderBuffer pool w"
        "GetBuffer pool (of_nat (length (m_cachedFrame w))) (w\<lparr>m_cachedFrame := []\<rparr>) = (Some b, w1)"
        "CopyFrame env b (m_format w) (m_cachedFrame w) (of_nat (length (m_cachedFrame w)))
                (m_width w) (m_height w) w1 = Inr w2"
        "w' = w2\<lparr>m_renderBuffers := m_renderBuffers w @ [b], m_cachedFrame := m_cachedFrame w\<rparr>"
    by blast
  then show ?thesis
  proof cases
    case 1
    with assms show ?thesis by simp
  next
    case 2
    let ?w0 = "w\<lparr>m_cachedFrame := []\<rparr>"
    have wf0: "pools_wf ?w0" using assms(2) by (simp add: pools_wf_def)
    note gb = GetBuffer_Some [OF 2(2) wf0]
    note rs = refs_same_CopyFrame [OF 2(3)]
    from gb rs have wf2: "pools_wf w2" by (blast intro: pools_wf_refs_same)
    then have wf': "pools_wf w'" by (simp add: 2(4) pools_wf_def)
    from gb have r0: "refs (buffer_of w b) = 0" and gpb: "GetPool (buffer_of w b) = pool"
      and oth: "x \<noteq> b \<Longrightarrow> buffer_of w1 x = buffer_of w x" for x
      by simp_all
    have bw: "buffer_of w' = buffer_of w2" "m_renderBuffers w' = m_renderBuffers w @ [b]"
      by (simp_all add: 2(4))
    from gb rs have rb: "refs (buffer_of w2 b) = 1" by (simp add: refs_same_def)
    have gp: "GetPool (buffer_of w2 x) = GetPool (buffer_of w x)" for x
      using buffers_only_GetBuffer [OF 2(2)] buffers_only_CopyFrame [OF 2(3)]
      by (simp add: buffers_only_def)
    have ro: "refs (buffer_of w2 x) = refs (buffer_of w x)" if "x \<noteq> b" for x
      using rs oth [OF that] by (simp add: refs_same_def)
    have nb: "b \<notin> set (m_renderBuffers w)"
      using r0 assms(3) by (auto simp add: buffer_set_inv_def)
    have np: "pool \<notin> (\<lambda>b. GetPool (buffer_of w b)) ` set (m_renderBuffers w)"
      using 2(1) by (auto simp add: HasRenderBuffer_iff)
    have "distinct (map (\<lambda>b. GetPool (buffer_of w' b)) (m_renderBuffers w'))"
      using assms(3) np gpb by (simp add: bw gp buffer_set_inv_def)
    moreover have "\<forall>x \<in> set (m_renderBuffers w'). 0 < refs (buffer_of w' x)"
    proof
      fix x
      assume "x \<in> set (m_renderBuffers w')"
      then consider "x = b" | "x \<in> set (m_renderBuffers w)" "x \<noteq> b"
        using nb by (auto simp add: bw)
      then show "0 < refs (buffer_of w' x)"
      proof cases
        case 1
        with rb show ?thesis by (simp add: bw)
      next
        case 2
        with ro assms(3) show ?thesis by (simp add: bw buffer_set_inv_def)
      qed
    qed
    ultimately show ?thesis using wf' by (simp add: buffer_set_inv_def)
  qed
qed

lemma Acquire_fields [simp]:
  "GetPool (buffer_of (Acquire b w) x) = GetPool (buffer_of w x)"
  "IsLoaded (buffer_of (Acquire b w) x) = IsLoaded (buffer_of w x)"
  "refs (buffer_of (Acquire b w) x) = (if x = b then Suc (refs (buffer_of w b)) else refs (buffer_of w x))"
  "pool_free (Acquire b w) = pool_free w"
  "m_renderBuffers (Acquire b w) = m_renderBuffers w"
  "trace (Acquire b w) = trace w"
  by (simp_all add: Acquire_def)

lemma GetRenderBuffer_cases:
  assumes "GetRenderBuffer pool w = (r, w')"
  shows "(r = None \<and> w' = w)
    \<or> (\<exists>b. r = Some b \<and> b \<in> set (m_renderBuffers w) \<and> GetPool (buffer_of w b) = pool
           \<and> \<not> m_bFlush w \<and> m_state w = CONFIGURED \<and> w' = Acquire b w)"
  using assms
  by (auto simp add: GetRenderBuffer_def find_Some_iff split: if_splits option.splits)

lemma GetRenderBuffer_inv:
  assumes "GetRenderBuffer pool w = (r, w')" and "pools_wf w" and "buffer_set_inv w"
  shows "buffer_set_inv w' \<and> pools_wf w'"
proof -
  from GetRenderBuffer_cases [OF assms(1)] consider "w' = w"
    | b where "b \<in> set (m_renderBuffers w)" "w' = Acquire b w"
    by blast
  then show ?thesis
  proof cases
    case 1
    with assms show ?thesis by simp
  next
    case 2
    from 2(1) assms(3) have pos: "0 < refs (buffer_of w b)" by (simp add: buffer_set_inv_def)
    have nf: "b \<notin> set (pool_free w p)" for p
      using pos assms(2) by (auto simp add: pools_wf_def)
    have "pools_wf w'"
      using assms(2) nf unfolding pools_wf_def 2(2) by auto
    moreover have "buffer_set_inv w'"
      using assms(3) unfolding buffer_set_inv_def 2(2) by auto
    ultimately show ?thesis by simp
  qed
qed




lemma world_seeded_simps:
  "m_bFlush world_seeded = False" "m_state world_seeded = CONFIGURED"
  "m_format world_seeded = 0" "m_width world_seeded = 2" "m_height world_seeded = 2"
  "m_speed world_seeded = 0" "m_renderBuffers world_seeded = [0]"
  "m_cachedFrame world_seeded = frame_ex" "m_bHasCachedFrame world_seeded = True"
  "GetBufferPools world_seeded = [0]" "pool_free world_seeded 0 = [1]"
  "buffer_of world_seeded 0 = buffer_ex\<lparr>memory := Some frame_ex, refs := 1\<rparr>"
  "buffer_of world_seeded 1 = buffer_ex" "buffer_of world_seeded (Suc 0) = buffer_ex"
  by (simp_all add: world_seeded_def world_cached_def world_paused_def world_configured_def
      world_ex_def)

lemma world_seeded_wf: "pools_wf world_seeded" "buffer_set_inv world_seeded"
  by (auto simp add: pools_wf_def buffer_set_inv_def world_seeded_def world_cached_def
      world_paused_def world_configured_def world_ex_def buffer_ex_def split: if_splits)









section \<open>Render dispatch\<close>

lemma dispatch_rel_refl: "pools_wf w \<Longrightarrow> buffer_set_inv w \<Longrightarrow> dispatch_rel w w"
  by (simp add: dispatch_rel_def)

lemma dispatch_rel_inv: "dispatch_rel w w' \<Longrightarrow> pools_wf w' \<and> buffer_set_inv w'"
  by (simp add: dispatch_rel_def)

lemma dispatch_rel_trans:
  assumes "dispatch_rel w w1" and "dispatch_rel w1 w2"
  shows "dispatch_rel w w2"
  unfolding dispatch_rel_def
proof (intro conjI ballI allI impI)
  show "pools_wf w2" "buffer_set_inv w2" using assms(2) by (simp_all add: dispatch_rel_def)
  show "set (m_renderBuffers w) \<subseteq> set (m_renderBuffers w2)"
    using assms unfolding dispatch_rel_def by blast
next
  fix b
  assume "b \<in> set (m_renderBuffers w)" "IsLoaded (buffer_of w b)"
  with assms show "IsLoaded (buffer_of w2 b)" unfolding dispatch_rel_def by blast
next
  fix b
  from assms(1) have s1: "set (m_renderBuffers w) \<subseteq> set (m_renderBuffers w1)"
    and l1: "b \<in> set (m_renderBuffers w) \<Longrightarrow> IsLoaded (buffer_of w b) \<Longrightarrow> IsLoaded (buffer_of w1 b)"
    and u1: "uploads b w1 = uploads b w
            \<or> (uploads b w1 = Suc (uploads b w)
                \<and> \<not> (b \<in> set (m_renderBuffers w) \<and> IsLoaded (buffer_of w b))
                \<and> b \<in> set (m_renderBuffers w1) \<and> IsLoaded (buffer_of w1 b))"
    unfolding dispatch_rel_def by blast+
  from assms(2) have s2: "set (m_renderBuffers w1) \<subseteq> set (m_renderBuffers w2)"
    and l2: "b \<in> set (m_renderBuffers w1) \<Longrightarrow> IsLoaded (buffer_of w1 b) \<Longrightarrow> IsLoaded (buffer_of w2 b)"
    and u2: "uploads b w2 = uploads b w1
            \<or> (uploads b w2 = Suc (uploads b w1)
                \<and> \<not> (b \<in> set (m_renderBuffers w1) \<and> IsLoaded (buffer_of w1 b))
                \<and> b \<in> set (m_renderBuffers w2) \<and> IsLoaded (buffer_of w2 b))"
    unfolding dispatch_rel_def by blast+
  from s1 l1 u1 s2 l2 u2
  show "uploads b w2 = uploads b w
            \<or> (uploads b w2 = Suc (uploads b w)
                \<and> \<not> (b \<in> set (m_renderBuffers w) \<and> IsLoaded (buffer_of w b))
                \<and> b \<in> set (m_renderBuffers w2) \<and> IsLoaded (buffer_of w2 b))"
    by (auto dest: subsetD)
qed


lemma inv_trace_update [simp]:
  "pools_wf (w\<lparr>trace := t\<rparr>) = pools_wf w" "buffer_set_inv (w\<lparr>trace := t\<rparr>) = buffer_set_inv w"
  by (simp_all add: pools_wf_def buffer_set_inv_def)

lemma dispatch_rel_calls:
  assumes "pools_wf w" and "buffer_set_inv w" and "\<forall>b. Buffer_UploadTexture b \<notin> set es"
  shows "dispatch_rel w (calls es w)"
  using assms by (simp add: dispatch_rel_def calls_def uploads_def)

lemma dispatch_rel_call:
  assumes "pools_wf w" and "buffer_set_inv w" and "\<forall>b. e \<noteq> Buffer_UploadTexture b"
  shows "dispatch_rel w (call e w)"
  using assms by (auto simp add: dispatch_rel_def call_def uploads_def)

lemma uploads_memcpy_buffer:
  "memcpy_buffer b toff source soff n w = Inr w' \<Longrightarrow> uploads x w' = uploads x w"
  by (auto simp add: memcpy_buffer_def uploads_def call_def split: option.splits sum.splits)

lemma uploads_CopyFrame_rows:
  "CopyFrame_rows b ts source ss wb rows w = Inr w' \<Longrightarrow> uploads x w' = uploads x w"
proof (induction rows arbitrary: w)
  case Nil
  then show ?case by simp
next
  case (Cons i rows)
  then show ?case by (auto split: sum.splits dest!: uploads_memcpy_buffer [where x = x])
qed

lemma uploads_CopyFrame:
  "CopyFrame env b format source size' width height w = Inr w' \<Longrightarrow> uploads x w' = uploads x w"
  by (auto simp add: CopyFrame_def CopyFrame_body_def Let_def call_def
      split: option.splits sum.splits if_splits
      dest!: uploads_memcpy_buffer [where x = x] uploads_CopyFrame_rows [where x = x])
    (auto simp add: uploads_def)

lemma GetRenderBuffer_step:
  assumes "GetRenderBuffer pool w = (r, w')" and "pools_wf w" and "buffer_set_inv w"
  shows "dispatch_rel w w'
    \<and> (\<forall>b. r = Some b \<longrightarrow> b \<in> set (m_renderBuffers w') \<and> 1 < refs (buffer_of w' b))"
proof -
  note inv = GetRenderBuffer_inv [OF assms]
  from GetRenderBuffer_cases [OF assms(1)] consider "r = None" "w' = w"
    | b where "r = Some b" "b \<in> set (m_renderBuffers w)" "w' = Acquire b w"
    by blast
  then show ?thesis
  proof cases
    case 1
    with assms show ?thesis by (simp add: dispatch_rel_refl)
  next
    case 2
    from 2(2) assms(3) have "0 < refs (buffer_of w b)" by (simp add: buffer_set_inv_def)
    with inv 2 show ?thesis by (simp add: dispatch_rel_def uploads_def)
  qed
qed

lemma CreateRenderBuffer_step:
  assumes "CreateRenderBuffer env pool w = Inr w'" and "pools_wf w" and "buffer_set_inv w"
  shows "dispatch_rel w w'"
proof -
  note inv = CreateRenderBuffer_inv [OF assms]
  from CreateRenderBuffer_cases [OF assms(1)] consider "w' = w"
    | b w1 w2 where
        "GetBuffer pool (of_nat (length (m_cachedFrame w))) (w\<lparr>m_cachedFrame := []\<rparr>) = (Some b, w1)"
        "CopyFrame env b (m_format w) (m_cachedFrame w) (of_nat (length (m_cachedFrame w)))
                (m_width w) (m_height w) w1 = Inr w2"
        "w' = w2\<lparr>m_renderBuffers := m_renderBuffers w @ [b], m_cachedFrame := m_cachedFrame w\<rparr>"
    by blast
  then show ?thesis
  proof cases
    case 1
    with assms show ?thesis by (simp add: dispatch_rel_refl)
  next
    case 2
    let ?w0 = "w\<lparr>m_cachedFrame := []\<rparr>"
    have wf0: "pools_wf ?w0" using assms(2) by (simp add: pools_wf_def)
    note gb = GetBuffer_Some [OF 2(1) wf0]
    note rs = refs_same_CopyFrame [OF 2(2)]
    from gb have r0: "refs (buffer_of w b) = 0" by simp
    have nb: "b \<notin> set (m_renderBuffers w)"
      using r0 assms(3) by (auto simp add: buffer_set_inv_def)
    have l: "IsLoaded (buffer_of w' x) = IsLoaded (buffer_of w x)" for x
      using gb rs by (cases "x = b") (simp_all add: 2(3) refs_same_def)
    have t1: "trace w1 = trace w"
      using 2(1) by (auto simp add: GetBuffer_def Acquire_def split: list.splits)
    have u: "uploads x w' = uploads x w" for x
      using uploads_CopyFrame [OF 2(2), of x] t1 by (simp add: 2(3) uploads_def)
    from inv l u show ?thesis by (auto simp add: dispatch_rel_def 2(3))
  qed
qed

lemma RenderInternal_buffer_fields:
  assumes "1 < refs (buffer_of w b)"
  shows "pool_free (RenderInternal_buffer env r b w) = pool_free w"
    and "m_renderBuffers (RenderInternal_buffer env r b w) = m_renderBuffers w"
    and "x \<noteq> b \<Longrightarrow> buffer_of (RenderInternal_buffer env r b w) x = buffer_of w x"
    and "refs (buffer_of (RenderInternal_buffer env r b w) b) = refs (buffer_of w b) - 1"
    and "IsLoaded (buffer_of (RenderInternal_buffer env r b w) b)"
    and "GetPool (buffer_of (RenderInternal_buffer env r b w) b) = GetPool (buffer_of w b)"
    and "trace (RenderInternal_buffer env r b w) =
           trace w @ (if IsLoaded (buffer_of w b) then [Renderer_SetBuffer r b]
                      else Buffer_UploadTexture b
                             # (if UploadTexture env b then [Renderer_SetBuffer r b] else []))"
  using assms
  by (auto simp add: RenderInternal_buffer_def Let_def Release_def SetLoaded_def call_def)


lemma RenderInternal_buffer_step:
  assumes "pools_wf w" and "buffer_set_inv w" and "b \<in> set (m_renderBuffers w)"
    and "1 < refs (buffer_of w b)"
  shows "dispatch_rel w (RenderInternal_buffer env r b w)"
proof -
  let ?w' = "RenderInternal_buffer env r b w"
  note f = RenderInternal_buffer_fields [OF assms(4), where env = env and r = r]
  have nf: "b \<notin> set (pool_free w p)" for p
    using assms(1,4) by (auto simp add: pools_wf_def)
  have wf: "pools_wf ?w'"
    unfolding pools_wf_def
  proof (intro allI conjI ballI)
    fix p
    show "distinct (pool_free ?w' p)" using assms(1) by (simp add: f(1) pools_wf_def)
  next
    fix p x
    assume "x \<in> set (pool_free ?w' p)"
    then have x: "x \<in> set (pool_free w p)" by (simp add: f(1))
    with nf have "x \<noteq> b" by auto
    with x assms(1) show "refs (buffer_of ?w' x) = 0" "GetPool (buffer_of ?w' x) = p"
      by (simp_all add: f(3) pools_wf_def)
  qed
  have gp: "GetPool (buffer_of ?w' x) = GetPool (buffer_of w x)" for x
    by (cases "x = b") (simp_all add: f(3,6))
  have pos: "0 < refs (buffer_of ?w' x)" if "x \<in> set (m_renderBuffers w)" for x
    using that assms(2,4) by (cases "x = b") (simp_all add: f(3,4) buffer_set_inv_def)
  have inv: "buffer_set_inv ?w'"
    using assms(2) pos by (simp add: buffer_set_inv_def f(2) gp)
  have ld: "IsLoaded (buffer_of ?w' x)" if "IsLoaded (buffer_of w x)" for x
    using that by (cases "x = b") (simp_all add: f(3,5))
  have up: "uploads x ?w' = uploads x w
            \<or> (uploads x ?w' = Suc (uploads x w)
                \<and> \<not> (x \<in> set (m_renderBuffers w) \<and> IsLoaded (buffer_of w x))
                \<and> x \<in> set (m_renderBuffers ?w') \<and> IsLoaded (buffer_of ?w' x))" for x
    using assms(3) f(5) by (auto simp add: uploads_def f(7) f(2))
  from wf inv ld up show ?thesis by (simp add: dispatch_rel_def f(2))
qed

lemma RenderInternal_step:
  assumes "RenderInternal env r bClear alpha w = Inr w'" and "pools_wf w" and "buffer_set_inv w"
  shows "dispatch_rel w w'"
proof -
  let ?w1 = "call (Renderer_PreRender r bClear) w"
  let ?pool = "GetBufferPool (renderer_of ?w1 r)"
  have d1: "dispatch_rel w ?w1" using assms(2,3) by (simp add: dispatch_rel_call)
  note i1 = dispatch_rel_inv [OF d1]
  obtain rb w2 where g1: "GetRenderBuffer ?pool ?w1 = (rb, w2)" by (cases "GetRenderBuffer ?pool ?w1")
  from GetRenderBuffer_step [OF g1] i1 have d2: "dispatch_rel ?w1 w2"
    and b2: "\<forall>b. rb = Some b \<longrightarrow> b \<in> set (m_renderBuffers w2) \<and> 1 < refs (buffer_of w2 b)"
    by simp_all
  note i2 = dispatch_rel_inv [OF d2]
  have "\<exists>rb1 w4. dispatch_rel w2 w4
      \<and> (\<forall>b. rb1 = Some b \<longrightarrow> b \<in> set (m_renderBuffers w4) \<and> 1 < refs (buffer_of w4 b))
      \<and> w' = call (Renderer_RenderFrame r bClear alpha)
               (case rb1 of None \<Rightarrow> w4 | Some b \<Rightarrow> RenderInternal_buffer env r b w4)"
  proof (cases rb)
    case (Some b)
    with assms(1) g1 have "w' = call (Renderer_RenderFrame r bClear alpha)
               (case rb of None \<Rightarrow> w2 | Some b \<Rightarrow> RenderInternal_buffer env r b w2)"
      by (simp add: RenderInternal_def Let_def)
    with b2 i2 show ?thesis using dispatch_rel_refl by blast
  next
    case None
    with assms(1) g1 obtain w3 where c: "CreateRenderBuffer env ?pool w2 = Inr w3"
      by (auto simp add: RenderInternal_def Let_def split: sum.splits)
    from CreateRenderBuffer_step [OF c] i2 have d3: "dispatch_rel w2 w3" by simp
    note i3 = dispatch_rel_inv [OF d3]
    obtain rb1 w4 where g2: "GetRenderBuffer ?pool w3 = (rb1, w4)"
      by (cases "GetRenderBuffer ?pool w3")
    from assms(1) g1 None c g2 have r: "w' = call (Renderer_RenderFrame r bClear alpha)
               (case rb1 of None \<Rightarrow> w4 | Some b \<Rightarrow> RenderInternal_buffer env r b w4)"
      by (simp add: RenderInternal_def Let_def)
    from GetRenderBuffer_step [OF g2] i3 have d4: "dispatch_rel w3 w4"
      and b4: "\<forall>b. rb1 = Some b \<longrightarrow> b \<in> set (m_renderBuffers w4) \<and> 1 < refs (buffer_of w4 b)"
      by simp_all
    from dispatch_rel_trans [OF d3 d4] b4 r show ?thesis by blast
  qed
  then obtain rb1 w4 where d4: "dispatch_rel w2 w4"
    and b4: "\<forall>b. rb1 = Some b \<longrightarrow> b \<in> set (m_renderBuffers w4) \<and> 1 < refs (buffer_of w4 b)"
    and w': "w' = call (Renderer_RenderFrame r bClear alpha)
               (case rb1 of None \<Rightarrow> w4 | Some b \<Rightarrow> RenderInternal_buffer env r b w4)"
    by blast
  note i4 = dispatch_rel_inv [OF d4]
  let ?w5 = "case rb1 of None \<Rightarrow> w4 | Some b \<Rightarrow> RenderInternal_buffer env r b w4"
  have d5: "dispatch_rel w4 ?w5"
  proof (cases rb1)
    case None
    with i4 show ?thesis by (simp add: dispatch_rel_refl)
  next
    case (Some b)
    with b4 i4 show ?thesis by (simp add: RenderInternal_buffer_step)
  qed
  note i5 = dispatch_rel_inv [OF d5]
  have d6: "dispatch_rel ?w5 w'" unfolding w' using i5 by (simp add: dispatch_rel_call)
  from d1 d2 d4 d5 d6 show ?thesis by (blast intro: dispatch_rel_trans)
qed


lemma GetRenderer_pool_cases:
  assumes "GetRenderer_pool env pool st w = Inr (r, w')"
  shows "(r = None \<and> w' = w
          \<and> (\<not> PoolIsCompatible env pool st
              \<or> (find (\<lambda>it. GetBufferPool (renderer_of w it) = pool
                              \<and> IsCompatible (renderer_of w it) st) (m_renderers w) = None
                  \<and> CreateRenderer env pool st = None)))
    \<or> (\<exists>it. r = Some it \<and> w' = w \<and> PoolIsCompatible env pool st
          \<and> find (\<lambda>it. GetBufferPool (renderer_of w it) = pool
                         \<and> IsCompatible (renderer_of w it) st) (m_renderers w) = Some it)
    \<or> (\<exists>obj. r = None \<and> PoolIsCompatible env pool st
          \<and> find (\<lambda>it. GetBufferPool (renderer_of w it) = pool
                         \<and> IsCompatible (renderer_of w it) st) (m_renderers w) = None
          \<and> CreateRenderer env pool st = Some obj
          \<and> \<not> ConfigureResult obj (m_format w) (m_width w) (m_height w)
          \<and> w' = call (Renderer_Configure (next_renderer w) (m_format w) (m_width w) (m_height w)) w)
    \<or> (\<exists>obj w2. r = Some (next_renderer w) \<and> PoolIsCompatible env pool st
          \<and> find (\<lambda>it. GetBufferPool (renderer_of w it) = pool
                         \<and> IsCompatible (renderer_of w it) st) (m_renderers w) = None
          \<and> CreateRenderer env pool st = Some obj
          \<and> ConfigureResult obj (m_format w) (m_width w) (m_height w)
          \<and> CreateRenderBuffer env (GetBufferPool obj)
               (call (Renderer_Configure (next_renderer w) (m_format w) (m_width w) (m_height w)) w)
              = Inr w2
          \<and> w' = w2\<lparr>m_renderers := m_renderers w2 @ [next_renderer w],
                     renderer_of := (renderer_of w2)(next_renderer w := obj),
                     next_renderer := Suc (next_renderer w)\<rparr>)"
  using assms
  by (auto simp add: GetRenderer_pool_def Let_def split: if_splits option.splits sum.splits)

lemma dispatch_rel_cong:
  assumes "dispatch_rel w w'" and "pool_free w'' = pool_free w'" and "buffer_of w'' = buffer_of w'"
    and "m_renderBuffers w'' = m_renderBuffers w'" and "trace w'' = trace w'"
  shows "dispatch_rel w w''"
  using assms by (simp add: dispatch_rel_def pools_wf_def buffer_set_inv_def uploads_def)

lemma GetRenderer_pool_step:
  assumes "GetRenderer_pool env pool st w = Inr (r, w')" and "pools_wf w" and "buffer_set_inv w"
  shows "dispatch_rel w w'"
proof -
  let ?w1 = "call (Renderer_Configure (next_renderer w) (m_format w) (m_width w) (m_height w)) w"
  have d1: "dispatch_rel w ?w1" using assms(2,3) by (simp add: dispatch_rel_call)
  from GetRenderer_pool_cases [OF assms(1)] consider "w' = w" | "w' = ?w1"
    | obj w2 where "CreateRenderBuffer env (GetBufferPool obj) ?w1 = Inr w2"
        "w' = w2\<lparr>m_renderers := m_renderers w2 @ [next_renderer w],
                     renderer_of := (renderer_of w2)(next_renderer w := obj),
                     next_renderer := Suc (next_renderer w)\<rparr>"
    by blast
  then show ?thesis
  proof cases
    case 1
    with assms show ?thesis by (simp add: dispatch_rel_refl)
  next
    case 2
    with d1 show ?thesis by simp
  next
    case 3
    from CreateRenderBuffer_step [OF 3(1)] dispatch_rel_inv [OF d1]
    have "dispatch_rel ?w1 w2" by simp
    with d1 have "dispatch_rel w w2" by (rule dispatch_rel_trans)
    then show ?thesis by (rule dispatch_rel_cong) (simp_all add: 3(2))
  qed
qed

lemma GetRenderer_pools_step:
  assumes "GetRenderer_pools env pools st w = Inr (r, w')" and "pools_wf w" and "buffer_set_inv w"
  shows "dispatch_rel w w'"
  using assms
proof (induction pools arbitrary: w)
  case Nil
  then show ?case by (simp add: dispatch_rel_refl)
next
  case (Cons p pools)
  from Cons.prems(1) obtain r1 w1 where g: "GetRenderer_pool env p st w = Inr (r1, w1)"
    by (auto split: sum.splits)
  note d1 = GetRenderer_pool_step [OF g Cons.prems(2,3)]
  show ?case
  proof (cases r1)
    case (Some x)
    with Cons.prems(1) g have "w' = w1" by simp
    with d1 show ?thesis by simp
  next
    case None
    with Cons.prems(1) g have "GetRenderer_pools env pools st w1 = Inr (r, w')" by simp
    from Cons.IH [OF this] dispatch_rel_inv [OF d1] have "dispatch_rel w1 w'" by simp
    with d1 show ?thesis by (rule dispatch_rel_trans)
  qed
qed

lemma GetRenderer_step:
  assumes "GetRenderer env rs w = Inr (r, w')" and "pools_wf w" and "buffer_set_inv w"
  shows "dispatch_rel w w'"
proof (cases "m_state w = UNCONFIGURED")
  case True
  with assms show ?thesis by (simp add: GetRenderer_def dispatch_rel_refl)
next
  case False
  let ?st = "GetEffectiveSettings env rs w"
  from assms(1) False obtain r1 w1 where
    g: "GetRenderer_pools env (GetBufferPools w) ?st w = Inr (r1, w1)"
    by (auto simp add: GetRenderer_def Let_def split: sum.splits)
  note d1 = GetRenderer_pools_step [OF g assms(2,3)]
  show ?thesis
  proof (cases r1)
    case None
    with assms(1) False g have "w' = w1" by (simp add: GetRenderer_def Let_def)
    with d1 show ?thesis by simp
  next
    case (Some x)
    with assms(1) False g have
      "w' = calls [Renderer_SetScalingMethod x (ScalingMethod ?st),
                   Renderer_SetViewMode x (RenderViewMode ?st),
                   Renderer_SetRenderRotation x (RenderRotation ?st)] w1"
      by (simp add: GetRenderer_def Let_def)
    moreover have "dispatch_rel w1 (calls [Renderer_SetScalingMethod x (ScalingMethod ?st),
                   Renderer_SetViewMode x (RenderViewMode ?st),
                   Renderer_SetRenderRotation x (RenderRotation ?st)] w1)"
      using dispatch_rel_inv [OF d1] by (simp add: dispatch_rel_calls)
    ultimately show ?thesis using d1 by (simp add: dispatch_rel_trans)
  qed
qed


lemma RenderWindow_step:
  assumes "RenderWindow env bClear w = Inr w'" and "pools_wf w" and "buffer_set_inv w"
  shows "dispatch_rel w w'"
proof -
  from assms(1) obtain r w1 where g: "GetRenderer env None w = Inr (r, w1)"
    by (auto simp add: RenderWindow_def split: sum.splits)
  note d1 = GetRenderer_step [OF g assms(2,3)]
  show ?thesis
  proof (cases r)
    case None
    with assms(1) g have "w' = w1" by (simp add: RenderWindow_def)
    with d1 show ?thesis by simp
  next
    case (Some x)
    let ?w2 = "call Context_SetRenderingResolution w1"
    from assms(1) g Some obtain w3 where
      ri: "RenderInternal env x bClear 255 ?w2 = Inr w3"
      and w': "w' = call Context_SetRenderingResolution w3"
      by (auto simp add: RenderWindow_def split: sum.splits)
    have d2: "dispatch_rel w1 ?w2" using dispatch_rel_inv [OF d1] by (simp add: dispatch_rel_call)
    from RenderInternal_step [OF ri] dispatch_rel_inv [OF d2] have d3: "dispatch_rel ?w2 w3" by simp
    have d4: "dispatch_rel w3 w'"
      unfolding w' using dispatch_rel_inv [OF d3] by (simp add: dispatch_rel_call)
    from d1 d2 d3 d4 show ?thesis by (blast intro: dispatch_rel_trans)
  qed
qed

lemma RenderControl_step:
  assumes "RenderControl env bClear bUseAlpha rs w = Inr w'" and "pools_wf w" and "buffer_set_inv w"
  shows "dispatch_rel w w'"
proof -
  from assms(1) obtain r w1 where g: "GetRenderer env rs w = Inr (r, w1)"
    by (auto simp add: RenderControl_def split: sum.splits)
  note d1 = GetRenderer_step [OF g assms(2,3)]
  show ?thesis
  proof (cases r)
    case None
    with assms(1) g have "w' = w1" by (simp add: RenderControl_def)
    with d1 show ?thesis by simp
  next
    case (Some x)
    let ?w2 = "if IsFullScreenVideo env then call (Context_SetFullScreenVideo False) w1 else w1"
    let ?w3 = "calls [Context_SetViewWindow, Context_SetTransform] ?w2"
    let ?w4 = "if bClear then calls [Context_SetScissors, Context_Clear, Context_SetScissors] ?w3
               else ?w3"
    let ?alpha = "if bUseAlpha then drop_bit 24 (MergeAlpha env 0xFF000000) else 255"
    from assms(1) g Some obtain w5 where
      ri: "RenderInternal env x False ?alpha ?w4 = Inr w5"
      and w': "w' = (if IsFullScreenVideo env
                     then call (Context_SetFullScreenVideo True) (call Context_RemoveTransform w5)
                     else call Context_RemoveTransform w5)"
      by (auto simp add: RenderControl_def Let_def split: sum.splits option.splits if_splits)
    have d2: "dispatch_rel w1 ?w2" using dispatch_rel_inv [OF d1]
      by (simp add: dispatch_rel_call dispatch_rel_refl)
    have d3: "dispatch_rel ?w2 ?w3" using dispatch_rel_inv [OF d2]
      by (simp add: dispatch_rel_calls)
    have d4: "dispatch_rel ?w3 ?w4" using dispatch_rel_inv [OF d3]
      by (simp add: dispatch_rel_calls dispatch_rel_refl)
    from RenderInternal_step [OF ri] dispatch_rel_inv [OF d4] have d5: "dispatch_rel ?w4 w5" by simp
    have d6: "dispatch_rel w5 (call Context_RemoveTransform w5)"
      using dispatch_rel_inv [OF d5] by (simp add: dispatch_rel_call)
    have d7: "dispatch_rel (call Context_RemoveTransform w5) w'"
      unfolding w' using dispatch_rel_inv [OF d6] by (simp add: dispatch_rel_call dispatch_rel_refl)
    from d1 d2 d3 d4 d5 d6 d7 show ?thesis by (blast intro: dispatch_rel_trans)
  qed
qed

lemma run_dispatch_step:
  assumes "run env ops w = Inr w'" and "\<forall>op \<in> set ops. is_dispatch op"
    and "pools_wf w" and "buffer_set_inv w"
  shows "dispatch_rel w w'"
  using assms
proof (induction ops arbitrary: w)
  case Nil
  then show ?case by (simp add: dispatch_rel_refl)
next
  case (Cons op ops)
  from Cons.prems(1) obtain w1 where s: "step env op w = Inr w1" and r: "run env ops w1 = Inr w'"
    by (auto split: sum.splits)
  from Cons.prems(2) have "is_dispatch op" by simp
  with s Cons.prems(3,4) have d1: "dispatch_rel w w1"
    by (cases op) (simp_all add: RenderWindow_step RenderControl_step)
  from Cons.IH [OF r] Cons.prems(2) dispatch_rel_inv [OF d1] have "dispatch_rel w1 w'" by simp
  with d1 show ?case by (rule dispatch_rel_trans)
qed

lemma world_seeded_more:
  "m_renderers world_seeded = []" "next_renderer world_seeded = 0"
  "m_renderSettings world_seeded
     = \<lparr>VideoFilter = [], ScalingMethod = 0, RenderViewMode = 0, RenderRotation = 0\<rparr>"
  by (simp_all add: world_seeded_def world_cached_def world_paused_def world_configured_def
      world_ex_def)

lemma env_ex_more:
  "PoolIsCompatible env_ex pool st = True" "CreateRenderer env_ex pool st = Some (renderer_ex\<lparr>GetBufferPool := pool\<rparr>)"
  "HasScalingMethod env_ex m = True" "UploadTexture env_ex b = False"
  by (simp_all add: env_ex_def renderer_ex_def)

lemma GetRenderer_ex:
  "GetRenderer env_ex None world_seeded
   = Inr (Some 0, world_seeded\<lparr>m_renderers := [0],
        renderer_of := (renderer_of world_seeded)(0 := renderer_ex), next_renderer := 1,
        trace := trace world_seeded
          @ [Renderer_Configure 0 0 2 2, Renderer_SetScalingMethod 0 0, Renderer_SetViewMode 0 0,
             Renderer_SetRenderRotation 0 0]\<rparr>)"
  apply (simp add: GetRenderer_def GetEffectiveSettings_def world_seeded_simps world_seeded_more
      env_ex_more Let_def)
  apply (simp add: GetRenderer_pool_def env_ex_more world_seeded_simps world_seeded_more Let_def
      renderer_ex_def)
  apply (simp add: CreateRenderBuffer_def HasRenderBuffer_def call_def calls_def
      world_seeded_simps world_seeded_more buffer_ex_def)
  done


lemma RenderInternal_ex:
  "RenderInternal env_ex 0 False 255
     (call Context_SetRenderingResolution
       (world_seeded\<lparr>m_renderers := [0],
          renderer_of := (renderer_of world_seeded)(0 := renderer_ex), next_renderer := 1,
          trace := trace world_seeded
            @ [Renderer_Configure 0 0 2 2, Renderer_SetScalingMethod 0 0,
               Renderer_SetViewMode 0 0, Renderer_SetRenderRotation 0 0]\<rparr>))
   = Inr (world_rendered\<lparr>trace := trace world_seeded
       @ [Renderer_Configure 0 0 2 2, Renderer_SetScalingMethod 0 0, Renderer_SetViewMode 0 0,
          Renderer_SetRenderRotation 0 0, Context_SetRenderingResolution,
          Renderer_PreRender 0 False, Buffer_UploadTexture 0, Renderer_RenderFrame 0 False 255]\<rparr>)"
  apply (simp add: RenderInternal_def Let_def call_def renderer_ex_def)
  apply (simp add: GetRenderBuffer_def world_seeded_simps buffer_ex_def Acquire_def)
  apply (simp add: RenderInternal_buffer_def Let_def world_seeded_simps buffer_ex_def
      env_ex_more SetLoaded_def call_def Release_def)
  apply (simp add: world_rendered_def renderer_ex_def world_seeded_simps buffer_ex_def)
  done

lemma RenderWindow_ex: "RenderWindow env_ex False world_seeded = Inr world_rendered"
  apply (simp only: RenderWindow_def GetRenderer_ex RenderInternal_ex sum.case prod.case
      option.case)
  apply (simp add: call_def world_rendered_def)
  done

lemma world_rendered_simps:
  "m_bFlush world_rendered = False" "m_state world_rendered = CONFIGURED"
  "m_renderBuffers world_rendered = [0]" "m_renderers world_rendered = [0]"
  "GetBufferPools world_rendered = [0]"
  "renderer_of world_rendered 0 = renderer_ex"
  "buffer_of world_rendered 0 = buffer_ex\<lparr>memory := Some frame_ex, refs := 1, IsLoaded := True\<rparr>"
  "m_renderSettings world_rendered
     = \<lparr>VideoFilter = [], ScalingMethod = 0, RenderViewMode = 0, RenderRotation = 0\<rparr>"
  by (simp_all add: world_rendered_def world_seeded_simps world_seeded_more)

lemma RenderWindow_ex2: "RenderWindow env_ex False world_rendered = Inr world_rendered_twice"
  apply (simp add: RenderWindow_def GetRenderer_def GetEffectiveSettings_def Let_def
      world_rendered_simps env_ex_more GetRenderer_pool_def renderer_ex_def)
  apply (simp add: RenderInternal_def Let_def call_def calls_def world_rendered_simps
      renderer_ex_def)
  apply (simp add: GetRenderBuffer_def world_rendered_simps buffer_ex_def Acquire_def)
  apply (simp add: RenderInternal_buffer_def Let_def world_rendered_simps buffer_ex_def
      env_ex_more SetLoaded_def call_def Release_def)
  apply (simp add: world_rendered_twice_def world_rendered_def world_seeded_simps buffer_ex_def)
  done


lemma run_ex:
  "run env_ex [Op_RenderWindow False, Op_RenderWindow False] world_seeded = Inr world_rendered_twice"
  by (simp only: run.simps step.simps RenderWindow_ex RenderWindow_ex2 sum.case)


text \<open>
  C7. In \<open>RenderInternal\<close>, with the buffer obtained (so that a reference besides the
  caller's is held): a buffer that is not loaded gets exactly one \<open>UploadTexture\<close>
  call and is loaded afterwards whatever the upload returned; \<open>SetBuffer\<close> follows only
  if the upload succeeded; the caller's reference is released in both cases. A loaded
  buffer gets no upload, only \<open>SetBuffer\<close>. Over any sequence of \<open>RenderWindow\<close> and
  \<open>RenderControl\<close> calls that starts with well-formed pools and buffer set, every
  buffer is uploaded at most once, and a loaded buffer of the set not at all.
\<close>

theorem texture_upload_once:
  "(1 < refs (buffer_of w renderBuffer) \<and> \<not> IsLoaded (buffer_of w renderBuffer) \<longrightarrow>
      IsLoaded (buffer_of (RenderInternal_buffer env renderer renderBuffer w) renderBuffer)
      \<and> trace (RenderInternal_buffer env renderer renderBuffer w)
          = trace w @ Buffer_UploadTexture renderBuffer
              # (if UploadTexture env renderBuffer then [Renderer_SetBuffer renderer renderBuffer]
                 else [])
      \<and> refs (buffer_of (RenderInternal_buffer env renderer renderBuffer w) renderBuffer)
          = refs (buffer_of w renderBuffer) - 1)
   \<and> (1 < refs (buffer_of w renderBuffer) \<and> IsLoaded (buffer_of w renderBuffer) \<longrightarrow>
      IsLoaded (buffer_of (RenderInternal_buffer env renderer renderBuffer w) renderBuffer)
      \<and> trace (RenderInternal_buffer env renderer renderBuffer w)
          = trace w @ [Renderer_SetBuffer renderer renderBuffer]
      \<and> refs (buffer_of (RenderInternal_buffer env renderer renderBuffer w) renderBuffer)
          = refs (buffer_of w renderBuffer) - 1)
   \<and> (pools_wf w \<and> buffer_set_inv w \<and> (\<forall>op \<in> set ops. is_dispatch op)
        \<and> run env ops w = Inr w' \<longrightarrow>
      count_list (trace w') (Buffer_UploadTexture b)
        \<le> Suc (count_list (trace w) (Buffer_UploadTexture b))
      \<and> (b \<in> set (m_renderBuffers w) \<and> IsLoaded (buffer_of w b) \<longrightarrow>
           count_list (trace w') (Buffer_UploadTexture b)
             = count_list (trace w) (Buffer_UploadTexture b)))"
proof -
  have a: "IsLoaded (buffer_of (RenderInternal_buffer env renderer renderBuffer w) renderBuffer)
      \<and> trace (RenderInternal_buffer env renderer renderBuffer w)
          = trace w @ (if IsLoaded (buffer_of w renderBuffer)
                       then [Renderer_SetBuffer renderer renderBuffer]
                       else Buffer_UploadTexture renderBuffer
                         # (if UploadTexture env renderBuffer
                            then [Renderer_SetBuffer renderer renderBuffer] else []))
      \<and> refs (buffer_of (RenderInternal_buffer env renderer renderBuffer w) renderBuffer)
          = refs (buffer_of w renderBuffer) - 1"
    if "1 < refs (buffer_of w renderBuffer)"
    using RenderInternal_buffer_fields(4,5,7) [OF that, where env = env and r = renderer]
    by blast
  have c: "count_list (trace w') (Buffer_UploadTexture b)
        \<le> Suc (count_list (trace w) (Buffer_UploadTexture b))
      \<and> (b \<in> set (m_renderBuffers w) \<and> IsLoaded (buffer_of w b) \<longrightarrow>
           count_list (trace w') (Buffer_UploadTexture b)
             = count_list (trace w) (Buffer_UploadTexture b))"
    if "pools_wf w" and "buffer_set_inv w" and "\<forall>op \<in> set ops. is_dispatch op"
      and "run env ops w = Inr w'"
  proof -
    from run_dispatch_step [OF that(4,3,1,2)]
    have "uploads b w' = uploads b w
            \<or> (uploads b w' = Suc (uploads b w)
                \<and> \<not> (b \<in> set (m_renderBuffers w) \<and> IsLoaded (buffer_of w b)))"
      unfolding dispatch_rel_def by blast
    then show ?thesis by (auto simp add: uploads_def)
  qed
  from a c show ?thesis by auto
qed


theorem texture_upload_once_witness:
  "pools_wf world_seeded \<and> buffer_set_inv world_seeded
   \<and> run env_ex [Op_RenderWindow False, Op_RenderWindow False] world_seeded
       = Inr world_rendered_twice
   \<and> count_list (trace world_rendered_twice) (Buffer_UploadTexture 0)
       \<le> Suc (count_list (trace world_seeded) (Buffer_UploadTexture 0))
   \<and> count_list (trace world_rendered_twice) (Buffer_UploadTexture 0) = 1
   \<and> \<not> UploadTexture env_ex 0
   \<and> 1 < refs (buffer_of (Acquire 0 world_seeded) 0)
   \<and> \<not> IsLoaded (buffer_of (Acquire 0 world_seeded) 0)
   \<and> trace (RenderInternal_buffer env_ex 0 0 (Acquire 0 world_seeded))
       = trace world_seeded @ [Buffer_UploadTexture 0]
   \<and> IsLoaded (buffer_of (RenderInternal_buffer env_ex 0 0 (Acquire 0 world_seeded)) 0)
   \<and> refs (buffer_of (RenderInternal_buffer env_ex 0 0 (Acquire 0 world_seeded)) 0) = 1"
proof -
  note t = texture_upload_once [where w = "Acquire 0 world_seeded" and renderBuffer = 0
      and env = env_ex and renderer = 0]
  note u = texture_upload_once [where w = world_seeded and env = env_ex and b = 0
      and ops = "[Op_RenderWindow False, Op_RenderWindow False]" and w' = world_rendered_twice]
  have a: "1 < refs (buffer_of (Acquire 0 world_seeded) 0)"
    "\<not> IsLoaded (buffer_of (Acquire 0 world_seeded) 0)"
    by (simp_all add: world_seeded_simps buffer_ex_def)
  have d: "\<forall>op \<in> set [Op_RenderWindow False, Op_RenderWindow False]. is_dispatch op" by simp
  from t a have b: "trace (RenderInternal_buffer env_ex 0 0 (Acquire 0 world_seeded))
       = trace world_seeded @ [Buffer_UploadTexture 0]
   \<and> IsLoaded (buffer_of (RenderInternal_buffer env_ex 0 0 (Acquire 0 world_seeded)) 0)
   \<and> refs (buffer_of (RenderInternal_buffer env_ex 0 0 (Acquire 0 world_seeded)) 0) = 1"
    by (simp add: env_ex_more world_seeded_simps buffer_ex_def)
  from u world_seeded_wf d run_ex
  have c: "count_list (trace world_rendered_twice) (Buffer_UploadTexture 0)
       \<le> Suc (count_list (trace world_seeded) (Buffer_UploadTexture 0))"
    by blast
  have e: "count_list (trace world_rendered_twice) (Buffer_UploadTexture 0) = 1"
    by (simp add: world_rendered_twice_def world_rendered_def world_seeded_def world_cached_def)
  from a b c e world_seeded_wf run_ex show ?thesis by (simp add: env_ex_more)
qed

section \<open>Renderer resolution\<close>

lemma res_same_refl [simp]: "res_same w w"
  by (simp add: res_same_def)

lemma res_same_trans: "res_same w v \<Longrightarrow> res_same v u \<Longrightarrow> res_same w u"
  by (simp add: res_same_def)

lemma res_same_sym: "res_same w v \<Longrightarrow> res_same v w"
  by (simp add: res_same_def)

lemma res_same_call [simp]: "res_same w (call e w)" "res_same w (calls es w)"
  by (simp_all add: res_same_def call_def calls_def)

lemma res_same_CreateRenderBuffer:
  assumes "CreateRenderBuffer env pool w = Inr w'"
  shows "res_same w w'"
proof -
  from CreateRenderBuffer_cases [OF assms] consider "w' = w"
    | b w1 w2 where
        "GetBuffer pool (of_nat (length (m_cachedFrame w))) (w\<lparr>m_cachedFrame := []\<rparr>) = (Some b, w1)"
        "CopyFrame env b (m_format w) (m_cachedFrame w) (of_nat (length (m_cachedFrame w)))
                (m_width w) (m_height w) w1 = Inr w2"
        "w' = w2\<lparr>m_renderBuffers := m_renderBuffers w @ [b], m_cachedFrame := m_cachedFrame w\<rparr>"
    by blast
  then show ?thesis
  proof cases
    case 1
    then show ?thesis by simp
  next
    case 2
    from buffers_only_GetBuffer [OF 2(1)] buffers_only_CopyFrame [OF 2(2)]
    show ?thesis by (simp add: 2(3) res_same_def buffers_only_def)
  qed
qed

lemma GetRenderer_pool_effect:
  assumes "GetRenderer_pool env pool st w = Inr (r, w')"
  shows "res_same w w'
    \<or> (\<exists>obj. r = Some (next_renderer w) \<and> CreateRenderer env pool st = Some obj
          \<and> m_renderers w' = m_renderers w @ [next_renderer w]
          \<and> renderer_of w' = (renderer_of w)(next_renderer w := obj)
          \<and> next_renderer w' = Suc (next_renderer w)
          \<and> res_same w (w'\<lparr>m_renderers := m_renderers w, renderer_of := renderer_of w,
                             next_renderer := next_renderer w\<rparr>))"
proof -
  let ?w1 = "call (Renderer_Configure (next_renderer w) (m_format w) (m_width w) (m_height w)) w"
  from GetRenderer_pool_cases [OF assms] consider "w' = w" | "w' = ?w1"
    | obj w2 where "r = Some (next_renderer w)" "CreateRenderer env pool st = Some obj"
        "CreateRenderBuffer env (GetBufferPool obj) ?w1 = Inr w2"
        "w' = w2\<lparr>m_renderers := m_renderers w2 @ [next_renderer w],
                     renderer_of := (renderer_of w2)(next_renderer w := obj),
                     next_renderer := Suc (next_renderer w)\<rparr>"
    by blast
  then show ?thesis
  proof cases
    case 1
    then show ?thesis by simp
  next
    case 2
    then show ?thesis by simp
  next
    case 3
    from res_same_CreateRenderBuffer [OF 3(3)] have "res_same w w2"
      by (simp add: res_same_def call_def)
    with 3 show ?thesis by (simp add: res_same_def)
  qed
qed


lemma GetRenderer_pools_effect:
  assumes "GetRenderer_pools env pools st w = Inr (r, w')"
  shows "res_same w w'
    \<or> (\<exists>obj. r = Some (next_renderer w)
          \<and> m_renderers w' = m_renderers w @ [next_renderer w]
          \<and> renderer_of w' = (renderer_of w)(next_renderer w := obj)
          \<and> next_renderer w' = Suc (next_renderer w)
          \<and> res_same w (w'\<lparr>m_renderers := m_renderers w, renderer_of := renderer_of w,
                             next_renderer := next_renderer w\<rparr>))"
  using assms
proof (induction pools arbitrary: w)
  case Nil
  then show ?case by simp
next
  case (Cons p pools)
  from Cons.prems obtain r1 wp where g: "GetRenderer_pool env p st w = Inr (r1, wp)"
    by (auto split: sum.splits)
  show ?case
  proof (cases r1)
    case (Some x)
    with Cons.prems g have "r = r1" "w' = wp" by simp_all
    with GetRenderer_pool_effect [OF g] show ?thesis by blast
  next
    case None
    with Cons.prems g have rest: "GetRenderer_pools env pools st wp = Inr (r, w')" by simp
    from GetRenderer_pool_effect [OF g] None have rs: "res_same w wp" by simp
    from Cons.IH [OF rest] show ?thesis
    proof (elim disjE exE conjE)
      assume "res_same wp w'"
      with rs show ?thesis by (blast intro: res_same_trans)
    next
      fix obj
      assume a: "r = Some (next_renderer wp)"
        "m_renderers w' = m_renderers wp @ [next_renderer wp]"
        "renderer_of w' = (renderer_of wp)(next_renderer wp := obj)"
        "next_renderer w' = Suc (next_renderer wp)"
        "res_same wp (w'\<lparr>m_renderers := m_renderers wp, renderer_of := renderer_of wp,
                             next_renderer := next_renderer wp\<rparr>)"
      from rs have e: "m_renderers wp = m_renderers w" "renderer_of wp = renderer_of w"
        "next_renderer wp = next_renderer w"
        by (simp_all add: res_same_def)
      from a(5) rs have "res_same w (w'\<lparr>m_renderers := m_renderers w, renderer_of := renderer_of w,
                             next_renderer := next_renderer w\<rparr>)"
        unfolding e by (rule res_same_trans [rotated])
      with a(1-4) show ?thesis unfolding e by blast
    qed
  qed
qed











lemma GetRenderer_effect:
  assumes "GetRenderer env rs w = Inr (r, w1)"
  shows "res_same w w1
    \<or> (\<exists>obj. r = Some (next_renderer w)
          \<and> m_renderers w1 = m_renderers w @ [next_renderer w]
          \<and> renderer_of w1 = (renderer_of w)(next_renderer w := obj)
          \<and> next_renderer w1 = Suc (next_renderer w)
          \<and> res_same w (w1\<lparr>m_renderers := m_renderers w, renderer_of := renderer_of w,
                             next_renderer := next_renderer w\<rparr>))"
proof (cases "m_state w = UNCONFIGURED")
  case True
  with assms show ?thesis by (simp add: GetRenderer_def)
next
  case False
  let ?st = "GetEffectiveSettings env rs w"
  from assms False obtain r1 wx where
    g: "GetRenderer_pools env (GetBufferPools w) ?st w = Inr (r1, wx)"
    by (auto simp add: GetRenderer_def Let_def split: sum.splits)
  from assms False g have r: "r = r1" and "w1 = wx \<or> (\<exists>es. w1 = calls es wx)"
    by (auto simp add: GetRenderer_def Let_def split: option.splits)
  then have f: "m_renderers w1 = m_renderers wx" "renderer_of w1 = renderer_of wx"
    "next_renderer w1 = next_renderer wx" "res_same wx w1"
    by (auto simp add: calls_def res_same_def)
  from GetRenderer_pools_effect [OF g] show ?thesis
  proof (elim disjE exE conjE)
    assume "res_same w wx"
    with f(4) show ?thesis by (blast intro: res_same_trans)
  next
    fix obj
    assume a: "r1 = Some (next_renderer w)" "m_renderers wx = m_renderers w @ [next_renderer w]"
      "renderer_of wx = (renderer_of w)(next_renderer w := obj)"
      "next_renderer wx = Suc (next_renderer w)"
      "res_same w (wx\<lparr>m_renderers := m_renderers w, renderer_of := renderer_of w,
                             next_renderer := next_renderer w\<rparr>)"
    from a(5) f(4) have "res_same w (w1\<lparr>m_renderers := m_renderers w, renderer_of := renderer_of w,
                             next_renderer := next_renderer w\<rparr>)"
      by (simp add: res_same_def)
    with a(1-4) r f(1-3) show ?thesis by auto
  qed
qed

lemma renderers_fresh_GetRenderer:
  assumes "GetRenderer env rs w = Inr (r, w1)" and "renderers_fresh w"
  shows "renderers_fresh w1"
  using GetRenderer_effect [OF assms(1)] assms(2)
  by (auto simp add: renderers_fresh_def res_same_def less_Suc_eq)










end
